theory Spec2Isabelle
  imports Complex_Main
begin

section \<open>Python values, exceptions and results\<close>

text \<open>
  The program is Python: JSON-like dictionaries go in and come out. A value is one of
  \<open>None\<close>, a bool, an int, a float, a string, a list or a dictionary. A dictionary is
  an association list in insertion order; a key is looked up with \<open>map_of\<close>.
  A float is a finite number, one of the two infinities or \<open>nan\<close>; a finite float
  is modelled by the real number it denotes, without rounding: the properties below
  only use comparisons and products that are exact.
\<close>

datatype pyfloat = Fin real | PosInf | NegInf | NaN

datatype pyval =
    PNone
  | PBool bool
  | PInt int
  | PFloat pyfloat
  | PStr string
  | PList "pyval list"
  | PDict "(string \<times> pyval) list"

type_synonym pydict = "(string \<times> pyval) list"

text \<open>The exceptions that the modelled code can raise.\<close>

datatype pyexc =
    ValueError string
  | TypeError
  | AttributeError
  | KeyError
  | IndexError
  | OverflowError
  | ZeroDivisionError

text \<open>
  A logic function returns either a dictionary or a pair of a dictionary and a status
  code; a Flask view returns \<open>jsonify(d)\<close> or \<open>(jsonify(d), code)\<close>.
\<close>

datatype reply = Plain pydict | Status pydict int

definition andthen :: "pyexc + 'a \<Rightarrow> ('a \<Rightarrow> pyexc + 'b) \<Rightarrow> pyexc + 'b" where
  "andthen m f = (case m of Inl e \<Rightarrow> Inl e | Inr v \<Rightarrow> f v)"

text \<open>
  What the code takes from outside the repository: the identifiers that successive
  calls of \<open>uuid.uuid4()\<close> yield during one request, the clock, and the interpreter's
  conversions \<open>str()\<close>, \<open>int()\<close> and \<open>float()\<close> on the values whose rendering
  or parsing is not written out here, with the text of the \<open>ValueError\<close> they raise.
\<close>

record env =
  uuid4 :: "nat \<Rightarrow> string"
  utcnow_iso :: string
  str_other :: "pyval \<Rightarrow> string"
  int_of_str :: "string \<Rightarrow> int option"
  float_of_str :: "string \<Rightarrow> pyfloat option"
  strptime_msg :: "string \<Rightarrow> string"
  float_msg :: "string \<Rightarrow> string"

text \<open>Truth value of a Python object (\<open>if x:\<close>, \<open>not x\<close>, \<open>x or y\<close>).\<close>

fun truthy :: "pyval \<Rightarrow> bool" where
  "truthy PNone = False"
| "truthy (PBool b) = b"
| "truthy (PInt i) = (i \<noteq> 0)"
| "truthy (PFloat f) = (f \<noteq> Fin 0)"
| "truthy (PStr s) = (s \<noteq> [])"
| "truthy (PList xs) = (xs \<noteq> [])"
| "truthy (PDict kvs) = (kvs \<noteq> [])"

text \<open>\<open>k in d\<close>, \<open>d[k]\<close> and \<open>d.get(k, default)\<close> on a dictionary.\<close>

definition has_key :: "pydict \<Rightarrow> string \<Rightarrow> bool" where
  "has_key d k = (map_of d k \<noteq> None)"

definition dict_item :: "pydict \<Rightarrow> string \<Rightarrow> pyexc + pyval" where
  "dict_item d k = (case map_of d k of None \<Rightarrow> Inl KeyError | Some v \<Rightarrow> Inr v)"

definition dict_get :: "pydict \<Rightarrow> string \<Rightarrow> pyval \<Rightarrow> pyval" where
  "dict_get d k dflt = (case map_of d k of None \<Rightarrow> dflt | Some v \<Rightarrow> v)"

text \<open>
  \<open>x.get(k, default)\<close>, \<open>x[k]\<close> and \<open>x[i]\<close> on an arbitrary object: only a
  dictionary has \<open>get\<close>; subscripting \<open>None\<close>, a bool or a number is a
  \<open>TypeError\<close>, as is a string key on a list or a string.
\<close>

fun py_get :: "pyval \<Rightarrow> string \<Rightarrow> pyval \<Rightarrow> pyexc + pyval" where
  "py_get (PDict d) k dflt = Inr (dict_get d k dflt)"
| "py_get _ k dflt = Inl AttributeError"

fun py_item :: "pyval \<Rightarrow> string \<Rightarrow> pyexc + pyval" where
  "py_item (PDict d) k = dict_item d k"
| "py_item _ k = Inl TypeError"

fun py_index0 :: "pyval \<Rightarrow> pyexc + pyval" where
  "py_index0 (PList []) = Inl IndexError"
| "py_index0 (PList (x # xs)) = Inr x"
| "py_index0 (PStr []) = Inl IndexError"
| "py_index0 (PStr (c # cs)) = Inr (PStr [c])"
| "py_index0 (PDict d) = Inl KeyError"
| "py_index0 _ = Inl TypeError"

text \<open>\<open>str(x)\<close>, as an f-string applies it.\<close>

fun py_str :: "env \<Rightarrow> pyval \<Rightarrow> string" where
  "py_str E (PStr s) = s"
| "py_str E PNone = ''None''"
| "py_str E (PBool b) = (if b then ''True'' else ''False'')"
| "py_str E v = str_other E v"

text \<open>
  Comparison and arithmetic of floats: every comparison with \<open>nan\<close> is false, a
  division by zero raises whatever the dividend is, \<open>x ** 2\<close> of an infinity is the
  positive infinity.
\<close>

fun fl_lt :: "pyfloat \<Rightarrow> pyfloat \<Rightarrow> bool" where
  "fl_lt (Fin a) (Fin b) = (a < b)"
| "fl_lt (Fin a) PosInf = True"
| "fl_lt (Fin a) NegInf = False"
| "fl_lt (Fin a) NaN = False"
| "fl_lt PosInf b = False"
| "fl_lt NegInf (Fin b) = True"
| "fl_lt NegInf PosInf = True"
| "fl_lt NegInf NegInf = False"
| "fl_lt NegInf NaN = False"
| "fl_lt NaN b = False"

fun fl_le :: "pyfloat \<Rightarrow> pyfloat \<Rightarrow> bool" where
  "fl_le (Fin a) (Fin b) = (a \<le> b)"
| "fl_le (Fin a) PosInf = True"
| "fl_le (Fin a) NegInf = False"
| "fl_le (Fin a) NaN = False"
| "fl_le PosInf (Fin b) = False"
| "fl_le PosInf PosInf = True"
| "fl_le PosInf NegInf = False"
| "fl_le PosInf NaN = False"
| "fl_le NegInf (Fin b) = True"
| "fl_le NegInf PosInf = True"
| "fl_le NegInf NegInf = True"
| "fl_le NegInf NaN = False"
| "fl_le NaN b = False"

fun fl_square :: "pyfloat \<Rightarrow> pyfloat" where
  "fl_square (Fin a) = Fin (a\<^sup>2)"
| "fl_square PosInf = PosInf"
| "fl_square NegInf = PosInf"
| "fl_square NaN = NaN"

fun fl_truediv :: "pyfloat \<Rightarrow> pyfloat \<Rightarrow> pyexc + pyfloat" where
  "fl_truediv (Fin a) (Fin b) = (if b = 0 then Inl ZeroDivisionError else Inr (Fin (a / b)))"
| "fl_truediv PosInf (Fin b) =
     (if b = 0 then Inl ZeroDivisionError else Inr (if 0 < b then PosInf else NegInf))"
| "fl_truediv NegInf (Fin b) =
     (if b = 0 then Inl ZeroDivisionError else Inr (if 0 < b then NegInf else PosInf))"
| "fl_truediv NaN (Fin b) = (if b = 0 then Inl ZeroDivisionError else Inr NaN)"
| "fl_truediv a NaN = Inr NaN"
| "fl_truediv (Fin a) b = Inr (Fin 0)"
| "fl_truediv NaN b = Inr NaN"
| "fl_truediv a b = Inr NaN"

text \<open>
  \<open>int(x)\<close>: a finite float is truncated toward zero, an infinity raises
  \<open>OverflowError\<close> and \<open>nan\<close> raises \<open>ValueError\<close>.
\<close>

fun py_int :: "env \<Rightarrow> pyval \<Rightarrow> pyexc + int" where
  "py_int E (PInt i) = Inr i"
| "py_int E (PBool b) = Inr (if b then 1 else 0)"
| "py_int E (PFloat (Fin r)) = Inr (if 0 \<le> r then \<lfloor>r\<rfloor> else \<lceil>r\<rceil>)"
| "py_int E (PFloat NaN) = Inl (ValueError ''cannot convert float NaN to integer'')"
| "py_int E (PFloat f) = Inl OverflowError"
| "py_int E (PStr s) = (case int_of_str E s of None \<Rightarrow> Inl (ValueError s) | Some i \<Rightarrow> Inr i)"
| "py_int E _ = Inl TypeError"

text \<open>
  \<open>float(x)\<close>: an int that rounds beyond the largest float raises
  \<open>OverflowError\<close>.
\<close>

fun py_float :: "env \<Rightarrow> pyval \<Rightarrow> pyexc + pyfloat" where
  "py_float E (PInt i) =
     (if 2 ^ 1024 - 2 ^ 970 \<le> \<bar>i\<bar> then Inl OverflowError else Inr (Fin (of_int i)))"
| "py_float E (PBool b) = Inr (Fin (if b then 1 else 0))"
| "py_float E (PFloat f) = Inr f"
| "py_float E (PStr s) =
     (case float_of_str E s of None \<Rightarrow> Inl (ValueError (float_msg E s)) | Some f \<Rightarrow> Inr f)"
| "py_float E _ = Inl TypeError"

text \<open>\<open>x >= n\<close> for an int \<open>n\<close>: numbers compare by value, anything else raises.\<close>

fun py_ge_int :: "pyval \<Rightarrow> int \<Rightarrow> pyexc + bool" where
  "py_ge_int (PInt i) n = Inr (n \<le> i)"
| "py_ge_int (PBool b) n = Inr (n \<le> (if b then 1 else 0))"
| "py_ge_int (PFloat f) n = Inr (fl_le (Fin (of_int n)) f)"
| "py_ge_int _ n = Inl TypeError"

text \<open>\<open>s.startswith(p)\<close>, \<open>sub in s\<close>, \<open>s.lower()\<close>, \<open>s.upper()\<close>,
  \<open>s.replace(" ", "_")\<close> and \<open>sep.join(xs)\<close> on strings of ASCII characters.\<close>

fun starts_with :: "string \<Rightarrow> string \<Rightarrow> bool" where
  "starts_with s [] = True"
| "starts_with [] (c # p) = False"
| "starts_with (x # s) (c # p) = (x = c \<and> starts_with s p)"

fun str_contains :: "string \<Rightarrow> string \<Rightarrow> bool" where
  "str_contains sub [] = (sub = [])"
| "str_contains sub (c # s) = (starts_with (c # s) sub \<or> str_contains sub s)"

definition lower_char :: "char \<Rightarrow> char" where
  "lower_char c =
     (case map_of (zip ''ABCDEFGHIJKLMNOPQRSTUVWXYZ'' ''abcdefghijklmnopqrstuvwxyz'') c of
        None \<Rightarrow> c | Some l \<Rightarrow> l)"

definition upper_char :: "char \<Rightarrow> char" where
  "upper_char c =
     (case map_of (zip ''abcdefghijklmnopqrstuvwxyz'' ''ABCDEFGHIJKLMNOPQRSTUVWXYZ'') c of
        None \<Rightarrow> c | Some u \<Rightarrow> u)"

definition str_lower :: "string \<Rightarrow> string" where
  "str_lower s = map lower_char s"

definition str_upper :: "string \<Rightarrow> string" where
  "str_upper s = map upper_char s"

definition replace_space :: "string \<Rightarrow> string" where
  "replace_space s = map (\<lambda>c. if c = CHR '' '' then CHR ''_'' else c) s"

fun str_join :: "string \<Rightarrow> string list \<Rightarrow> string" where
  "str_join sep [] = []"
| "str_join sep [x] = x"
| "str_join sep (x # y # ys) = x @ sep @ str_join sep (y # ys)"

section \<open>Calendar dates\<close>

text \<open>
  Every \<open>datetime\<close> of the program comes from \<open>strptime(s, '%Y-%m-%d')\<close> and
  whole-day offsets, so its time of day is midnight and a date stands for it. The
  arithmetic follows CPython's \<open>datetime\<close>: proleptic Gregorian ordinals, years
  1 to 9999, and an \<open>OverflowError\<close> when a sum leaves that range.
\<close>

datatype date = Date (year: int) (month: int) (day: int)

definition MAXORDINAL :: int where
  "MAXORDINAL = 3652059"

definition is_leap :: "int \<Rightarrow> bool" where
  "is_leap y = (y mod 4 = 0 \<and> (y mod 100 \<noteq> 0 \<or> y mod 400 = 0))"

definition days_in_month :: "int \<Rightarrow> int \<Rightarrow> int" where
  "days_in_month y m =
     (if m = 2 \<and> is_leap y then 29
      else [0, 31, 28, 31, 30, 31, 30, 31, 31, 30, 31, 30, 31] ! nat m)"

definition days_before_month :: "int \<Rightarrow> int \<Rightarrow> int" where
  "days_before_month y m =
     [0, 0, 31, 59, 90, 120, 151, 181, 212, 243, 273, 304, 334] ! nat m
       + (if 2 < m \<and> is_leap y then 1 else 0)"

definition days_before_year :: "int \<Rightarrow> int" where
  "days_before_year y =
     (let p = y - 1 in p * 365 + p div 4 - p div 100 + p div 400)"

definition ymd_to_ord :: "date \<Rightarrow> int" where
  "ymd_to_ord d = days_before_year (year d) + days_before_month (year d) (month d) + day d"

text \<open>
  The month and the day of the \<open>n\<close>-th day (from 0) of year \<open>y\<close>, as the second half
  of \<open>ord_to_ymd\<close> finds them: an estimate of the month that is at most one too large.
\<close>

definition month_day :: "int \<Rightarrow> bool \<Rightarrow> int \<Rightarrow> int \<times> int" where
  "month_day y leapyear n =
     (let m = (n + 50) div 32;
          preceding = [0, 0, 31, 59, 90, 120, 151, 181, 212, 243, 273, 304, 334] ! nat m
                        + (if 2 < m \<and> leapyear then 1 else 0)
      in if n < preceding
         then (m - 1, n - (preceding - days_in_month y (m - 1)) + 1)
         else (m, n - preceding + 1))"

definition ord_to_ymd :: "int \<Rightarrow> date" where
  "ord_to_ymd ordinal =
     (let o1 = ordinal - 1;
          n400 = o1 div 146097; r400 = o1 mod 146097;
          n100 = r400 div 36524; r100 = r400 mod 36524;
          n4 = r100 div 1461; r4 = r100 mod 1461;
          n1 = r4 div 365; n = r4 mod 365;
          y = n400 * 400 + 1 + n100 * 100 + n4 * 4 + n1
      in if n1 = 4 \<or> n100 = 4 then Date (y - 1) 12 31
         else
           let leapyear = (n1 = 3 \<and> (n4 \<noteq> 24 \<or> n100 = 3))
           in case month_day y leapyear n of (m, d) \<Rightarrow> Date y m d)"

definition valid_date :: "date \<Rightarrow> bool" where
  "valid_date d =
     (1 \<le> year d \<and> year d \<le> 9999 \<and> 1 \<le> month d \<and> month d \<le> 12
      \<and> 1 \<le> day d \<and> day d \<le> days_in_month (year d) (month d))"

text \<open>
  \<open>normalize_date\<close>: a day of the month that has left its month is carried into the
  months and years; the result must lie in the years 1 to 9999.
\<close>

definition normalize_date :: "int \<Rightarrow> int \<Rightarrow> int \<Rightarrow> pyexc + date" where
  "normalize_date y m d =
     (let dim = days_in_month y m in
      if 1 \<le> d \<and> d \<le> dim then
        (if 1 \<le> y \<and> y \<le> 9999 then Inr (Date y m d) else Inl OverflowError)
      else if d = 0 then
        (let r = (if 0 < m - 1 then Date y (m - 1) (days_in_month y (m - 1))
                  else Date (y - 1) 12 31)
         in if 1 \<le> year r \<and> year r \<le> 9999 then Inr r else Inl OverflowError)
      else if d = dim + 1 then
        (let r = (if 12 < m + 1 then Date (y + 1) 1 1 else Date y (m + 1) 1)
         in if 1 \<le> year r \<and> year r \<le> 9999 then Inr r else Inl OverflowError)
      else
        (let ordinal = ymd_to_ord (Date y m 1) + d - 1 in
         if ordinal < 1 \<or> MAXORDINAL < ordinal then Inl OverflowError
         else (let r = ord_to_ymd ordinal
               in if 1 \<le> year r \<and> year r \<le> 9999 then Inr r else Inl OverflowError)))"

text \<open>\<open>dt + timedelta(days=n)\<close> (and \<open>dt - timedelta(days=k)\<close> with \<open>n = -k\<close>).\<close>

definition add_days :: "date \<Rightarrow> int \<Rightarrow> pyexc + date" where
  "add_days dt n = normalize_date (year dt) (month dt) (day dt + n)"

text \<open>\<open>(a - b).days\<close>.\<close>

definition days_between :: "date \<Rightarrow> date \<Rightarrow> int" where
  "days_between a b = ymd_to_ord a - ymd_to_ord b"

subsection \<open>Parsing and printing\<close>

definition digit_of :: "char \<Rightarrow> int option" where
  "digit_of c =
     map_of [(CHR ''0'', 0), (CHR ''1'', 1), (CHR ''2'', 2), (CHR ''3'', 3), (CHR ''4'', 4),
             (CHR ''5'', 5), (CHR ''6'', 6), (CHR ''7'', 7), (CHR ''8'', 8), (CHR ''9'', 9)] c"

definition digit_char :: "int \<Rightarrow> char" where
  "digit_char n = ''0123456789'' ! nat n"

definition pad2 :: "int \<Rightarrow> string" where
  "pad2 n = [digit_char (n div 10), digit_char (n mod 10)]"

definition pad4 :: "int \<Rightarrow> string" where
  "pad4 n = [digit_char (n div 1000), digit_char (n div 100 mod 10),
             digit_char (n div 10 mod 10), digit_char (n mod 10)]"

text \<open>
  The directive \<open>%Y\<close> takes four digits; \<open>%m\<close> takes \<open>1[0-2]|0[1-9]|[1-9]\<close>
  and must be followed by the hyphen; \<open>%d\<close> takes
  \<open>3[01]|[12]\d|0[1-9]|[1-9]| [1-9]\<close> and must end the string.
\<close>

definition parse_year :: "string \<Rightarrow> int option" where
  "parse_year s =
     (case map digit_of s of
        [Some a, Some b, Some c, Some d] \<Rightarrow> Some (a * 1000 + b * 100 + c * 10 + d)
      | _ \<Rightarrow> None)"

definition parse_month :: "string \<Rightarrow> int option" where
  "parse_month s =
     (case map digit_of s of
        [Some a] \<Rightarrow> (if 1 \<le> a then Some a else None)
      | [Some a, Some b] \<Rightarrow>
          (if a = 1 \<and> b \<le> 2 then Some (10 + b)
           else if a = 0 \<and> 1 \<le> b then Some b else None)
      | _ \<Rightarrow> None)"

definition parse_day :: "string \<Rightarrow> int option" where
  "parse_day s =
     (case s of
        [c] \<Rightarrow> (case digit_of c of Some a \<Rightarrow> (if 1 \<le> a then Some a else None) | None \<Rightarrow> None)
      | [c, e] \<Rightarrow>
          (case (digit_of c, digit_of e) of
             (Some a, Some b) \<Rightarrow>
               (if a = 3 \<and> b \<le> 1 then Some (30 + b)
                else if a = 1 \<or> a = 2 then Some (a * 10 + b)
                else if a = 0 \<and> 1 \<le> b then Some b else None)
           | (None, Some b) \<Rightarrow> (if c = CHR '' '' \<and> 1 \<le> b then Some b else None)
           | _ \<Rightarrow> None)
      | _ \<Rightarrow> None)"

text \<open>
  \<open>datetime.strptime(s, '%Y-%m-%d')\<close> on a string: a \<open>ValueError\<close> when the text
  does not match, or when year, month and day are no date (year 0, 30 February).
\<close>

definition strptime_ymd :: "env \<Rightarrow> string \<Rightarrow> pyexc + date" where
  "strptime_ymd E s =
     (let ys = take 4 s; r = drop 4 s;
          ms = takeWhile (\<lambda>c. c \<noteq> CHR ''-'') (drop 1 r);
          ds = drop (Suc (length ms)) (drop 1 r)
      in if take 1 r \<noteq> ''-'' \<or> take 1 (drop (length ms) (drop 1 r)) \<noteq> ''-''
         then Inl (ValueError (strptime_msg E s))
         else case (parse_year ys, parse_month ms, parse_day ds) of
                (Some y, Some m, Some d) \<Rightarrow>
                  (if valid_date (Date y m d) then Inr (Date y m d)
                   else Inl (ValueError (strptime_msg E s)))
              | _ \<Rightarrow> Inl (ValueError (strptime_msg E s)))"

text \<open>On an arbitrary object: \<open>strptime\<close> wants a \<open>str\<close>.\<close>

fun py_strptime :: "env \<Rightarrow> pyval \<Rightarrow> pyexc + date" where
  "py_strptime E (PStr s) = strptime_ymd E s"
| "py_strptime E _ = Inl TypeError"

text \<open>
  \<open>dt.isoformat()\<close> and \<open>dt.strftime('%Y-%m-%d')\<close>. The year is printed with four
  digits (the C library of some platforms prints a year below 1000 unpadded in
  \<open>strftime\<close>).
\<close>

definition isoformat :: "date \<Rightarrow> string" where
  "isoformat d = pad4 (year d) @ ''-'' @ pad2 (month d) @ ''-'' @ pad2 (day d) @ ''T00:00:00''"

definition strftime_ymd :: "date \<Rightarrow> string" where
  "strftime_ymd d = pad4 (year d) @ ''-'' @ pad2 (month d) @ ''-'' @ pad2 (day d)"

section \<open>The logic module\<close>

subsection \<open>Helpers\<close>

text \<open>\<open>create_fhir_id()\<close> is \<open>uuid4 E n\<close> for the \<open>n\<close>-th call of the request.\<close>

text \<open>
  \<open>try: body except ValueError as e: return handler(e)\<close>: a \<open>ValueError\<close> of the
  body becomes the handler's reply, any other exception propagates, and a body that
  ends normally hands its variables to the rest of the function.
\<close>

definition try_except_ValueError ::
  "pyexc + 'a \<Rightarrow> (string \<Rightarrow> reply) \<Rightarrow> ('a \<Rightarrow> pyexc + reply) \<Rightarrow> pyexc + reply" where
  "try_except_ValueError body handler rest =
     (case body of
        Inr v \<Rightarrow> rest v
      | Inl e \<Rightarrow> (case e of ValueError msg \<Rightarrow> Inr (handler msg) | _ \<Rightarrow> Inl e))"

definition create_fhir_reference :: "env \<Rightarrow> string \<Rightarrow> pyval \<Rightarrow> pyval \<Rightarrow> pyval" where
  "create_fhir_reference E resource_type resource_id display =
     PDict ([(''reference'', PStr (resource_type @ ''/'' @ py_str E resource_id))]
            @ (if truthy display then [(''display'', display)] else []))"

definition create_codeable_concept :: "string \<Rightarrow> string \<Rightarrow> string \<Rightarrow> pyval \<Rightarrow> pyval" where
  "create_codeable_concept system code display text =
     PDict [(''coding'', PList [PDict [(''system'', PStr system), (''code'', PStr code),
                                       (''display'', PStr display)]]),
            (''text'', (if truthy text then text else PStr display))]"

subsection \<open>Antenatal care\<close>

definition register_pregnancy_logic :: "env \<Rightarrow> pydict \<Rightarrow> pyexc + reply" where
  "register_pregnancy_logic E data =
     (if data = [] \<or> \<not> has_key data ''patient_details''
      then Inr (Status [(''error'', PStr ''Patient details not provided'')] 400)
      else
        andthen (dict_item data ''patient_details'') (\<lambda>patient_details.
        let patient_id = uuid4 E 0; episode_id = uuid4 E 1 in
        andthen (py_get patient_details ''family_name'' PNone) (\<lambda>family_name.
        andthen (py_get patient_details ''given_name'' PNone) (\<lambda>given_name.
        andthen (py_get patient_details ''birth_date'' PNone) (\<lambda>birth_date.
        andthen (py_get patient_details ''gender'' (PStr ''female'')) (\<lambda>gender.
        andthen (py_get patient_details ''identifier_system''
                   (PStr ''urn:oid:example-national-id'')) (\<lambda>identifier_system.
        andthen (py_get patient_details ''identifier_value'' (PStr (uuid4 E 2)))
          (\<lambda>identifier_value.
        let patient_resource =
              [(''resourceType'', PStr ''Patient''),
               (''id'', PStr patient_id),
               (''name'', PList [PDict [(''use'', PStr ''official''), (''family'', family_name),
                                        (''given'', PList [given_name])]]),
               (''birthDate'', birth_date),
               (''gender'', gender),
               (''identifier'', PList [PDict [(''use'', PStr ''official''),
                                              (''system'', identifier_system),
                                              (''value'', identifier_value)]])];
            episode_resource =
              [(''resourceType'', PStr ''EpisodeOfCare''),
               (''id'', PStr episode_id),
               (''status'', PStr ''active''),
               (''type'', PList [create_codeable_concept
                    ''http://terminology.hl7.org/CodeSystem/episodeofcare-type'' ''hacc''
                    ''Home and Community Care'' PNone]),
               (''patient'', create_fhir_reference E ''Patient'' (PStr patient_id)
                    (PStr (py_str E given_name @ '' '' @ py_str E family_name))),
               (''managingOrganization'', create_fhir_reference E ''Organization''
                    (PStr ''org-example'') (PStr ''WHO Affiliated Clinic'')),
               (''period'', PDict [(''start'', PStr (utcnow_iso E))])]
        in Inr (Status
             [(''message'', PStr ''Pregnancy registration initiated.''),
              (''patient'', PDict patient_resource),
              (''episodeOfCare'', PDict episode_resource),
              (''next_steps'',
                 PStr ''Consider providing a patient registration questionnaire.'')]
             201)))))))))"

definition calculate_edd_logic :: "env \<Rightarrow> pydict \<Rightarrow> pyexc + reply" where
  "calculate_edd_logic E data =
     (if data = [] \<or> \<not> has_key data ''lmp_date''
      then Inr (Status [(''error'', PStr ''LMP date not provided'')] 400)
      else
        try_except_ValueError
          (andthen (dict_item data ''lmp_date'') (\<lambda>lmp_date_str.
           andthen (py_strptime E lmp_date_str) (\<lambda>lmp_date.
           Inr (lmp_date_str, lmp_date))))
          (\<lambda>msg. Status [(''error'', PStr ''Invalid LMP date format. Use YYYY-MM-DD.'')] 400)
          (\<lambda>(lmp_date_str, lmp_date).
             andthen (add_days lmp_date 280) (\<lambda>edd_date.
             Inr (Plain
               [(''lmp_date'', lmp_date_str),
                (''estimated_delivery_date'', PStr (strftime_ymd edd_date)),
                (''calculation_method'',
                   PStr (''Naegele'' @ [CHR 0x27] @ ''s Rule (LMP + 280 days)''))]))))"

definition visit_weeks :: "(int \<times> string) list" where
  "visit_weeks =
     [(12, ''First contact: Up to 12 weeks''),
      (20, ''Second contact: 20 weeks''),
      (26, ''Third contact: 26 weeks''),
      (30, ''Fourth contact: 30 weeks''),
      (34, ''Fifth contact: 34 weeks''),
      (36, ''Sixth contact: 36 weeks''),
      (38, ''Seventh contact: 38 weeks''),
      (40, ''Eighth contact: 40 weeks (or around EDD)'')]"

text \<open>The loop over \<open>visit_weeks\<close>: one activity per row, appended in table order.\<close>

fun anc_activities :: "date \<Rightarrow> (int \<times> string) list \<Rightarrow> pyexc + pyval list" where
  "anc_activities lmp_date [] = Inr []"
| "anc_activities lmp_date ((weeks, description) # rest) =
     andthen (add_days lmp_date (7 * weeks)) (\<lambda>visit_date.
     andthen (add_days visit_date 1) (\<lambda>visit_end.
     let activity_detail_dict =
           [(''kind'', PStr ''Appointment''),
            (''code'', create_codeable_concept ''http://snomed.info/sct'' ''390807002''
                         ''Antenatal care (procedure)'' PNone),
            (''status'', PStr ''scheduled''),
            (''description'', PStr description),
            (''scheduledPeriod'', PDict [(''start'', PStr (isoformat visit_date)),
                                         (''end'', PStr (isoformat visit_end))])]
     in andthen (anc_activities lmp_date rest) (\<lambda>activities.
        Inr (PDict [(''detail'', PDict activity_detail_dict)] # activities))))"

definition schedule_anc_visits_logic :: "env \<Rightarrow> pydict \<Rightarrow> pyexc + reply" where
  "schedule_anc_visits_logic E data =
     (let lmp_date_str = dict_get data ''lmp_date'' PNone;
          edd_date_str = dict_get data ''edd_date'' PNone;
          patient_id = dict_get data ''patient_id'' (PStr ''patient-example'')
      in
      if \<not> truthy lmp_date_str \<and> \<not> truthy edd_date_str
      then Inr (Status [(''error'', PStr ''Either LMP date or EDD date must be provided'')] 400)
      else
        try_except_ValueError
          (if truthy lmp_date_str
           then andthen (py_strptime E lmp_date_str) (\<lambda>lmp_date.
                andthen (add_days lmp_date 280) (\<lambda>edd_date. Inr (lmp_date, edd_date)))
           else andthen (py_strptime E edd_date_str) (\<lambda>edd_date.
                andthen (add_days edd_date (- 280)) (\<lambda>lmp_date. Inr (lmp_date, edd_date))))
          (\<lambda>msg. Status [(''error'', PStr ''Invalid date format. Use YYYY-MM-DD.'')] 400)
          (\<lambda>(lmp_date, edd_date).
             let care_plan_id = uuid4 E 0 in
             andthen (anc_activities lmp_date visit_weeks) (\<lambda>activities.
             Inr (Plain
               [(''resourceType'', PStr ''CarePlan''),
                (''id'', PStr care_plan_id),
                (''status'', PStr ''active''),
                (''intent'', PStr ''plan''),
                (''title'', PStr ''Antenatal Care Visit Schedule''),
                (''description'',
                   PStr (''Proposed schedule of 8 ANC contacts based on LMP: ''
                         @ strftime_ymd lmp_date)),
                (''subject'', create_fhir_reference E ''Patient'' patient_id PNone),
                (''period'', PDict [(''start'', PStr (isoformat lmp_date)),
                                    (''end'', PStr (isoformat edd_date))]),
                (''activity'', PList activities),
                (''instantiatesCanonical'',
                   PList [PStr ''http://who.int/smart-guidelines/anc/schedule''])]))))"

text \<open>
  The two checks of \<open>analyze_anc_visit_data_logic\<close>. The blood-pressure check sits in
  \<open>try ... except ValueError: pass\<close>; it yields whether the flag is appended.
\<close>

definition bp_check_logic :: "env \<Rightarrow> pyval \<Rightarrow> pyval \<Rightarrow> pyexc + bool" where
  "bp_check_logic E bp_systolic bp_diastolic =
     (if truthy bp_systolic \<and> truthy bp_diastolic
      then (case andthen (py_int E bp_systolic) (\<lambda>s.
                   if 140 \<le> s then Inr True
                   else andthen (py_int E bp_diastolic) (\<lambda>d. Inr (90 \<le> d))) of
              Inr b \<Rightarrow> Inr b
            | Inl e \<Rightarrow> (case e of ValueError msg \<Rightarrow> Inr False | _ \<Rightarrow> Inl e))
      else Inr False)"

definition high_bp_risk :: pyval where
  "high_bp_risk =
     PDict [(''risk_code'', PStr ''ANC_HIGH_BP''),
            (''description'', PStr ''Elevated blood pressure, potential for pre-eclampsia.''),
            (''severity'', PStr ''high'')]"

definition bleeding_risk :: pyval where
  "bleeding_risk =
     PDict [(''risk_code'', PStr ''ANC_BLEEDING''),
            (''description'', PStr ''Patient reports bleeding.''),
            (''severity'', PStr ''high'')]"

definition no_risk :: pyval where
  "no_risk =
     PDict [(''description'',
               PStr ''No immediate high-risk factors identified based on this limited data.''),
            (''severity'', PStr ''low'')]"

definition high_bp_recommendation :: string where
  "high_bp_recommendation =
     ''Immediate follow-up with a clinician for blood pressure assessment.''"

definition bleeding_recommendation :: string where
  "bleeding_recommendation = ''Urgent assessment for cause of bleeding.''"

definition routine_recommendation :: string where
  "routine_recommendation =
     ''Continue routine ANC care as per schedule. Reinforce education on danger signs.''"

text \<open>
  The tail shared by the logic function and the Flask view: the bleeding check, the
  synthetic entry when nothing was found, and the reply. \<open>bp\<close> says whether the
  blood-pressure flag was appended.
\<close>

definition finish_analysis :: "bool \<Rightarrow> pyval \<Rightarrow> pydict" where
  "finish_analysis bp bleeding =
     (let risks1 = (if bp then [high_bp_risk] else []);
          recs1 = (if bp then [PStr high_bp_recommendation] else []);
          risks2 = (if bleeding = PBool True then risks1 @ [bleeding_risk] else risks1);
          recs2 = (if bleeding = PBool True then recs1 @ [PStr bleeding_recommendation]
                   else recs1);
          risks3 = (if risks2 = [] then risks2 @ [no_risk] else risks2);
          recs3 = (if risks2 = [] then recs2 @ [PStr routine_recommendation] else recs2)
      in [(''analysis_summary'', PStr ''ANC visit data analyzed.''),
          (''risks_identified'', PList risks3),
          (''recommendations'', PList recs3),
          (''guideline_reference'',
             PStr ''http://who.int/smart-guidelines/anc/risk-assessment'')])"

definition analyze_anc_visit_data_logic :: "env \<Rightarrow> pydict \<Rightarrow> pyexc + reply" where
  "analyze_anc_visit_data_logic E data =
     andthen (py_get (dict_get data ''vitals'' (PDict [])) ''bp_systolic'' PNone) (\<lambda>bp_systolic.
     andthen (py_get (dict_get data ''vitals'' (PDict [])) ''bp_diastolic'' PNone) (\<lambda>bp_diastolic.
     andthen (bp_check_logic E bp_systolic bp_diastolic) (\<lambda>bp.
     andthen (py_get (dict_get data ''symptoms'' (PDict [])) ''bleeding'' PNone) (\<lambda>bleeding.
     Inr (Plain (finish_analysis bp bleeding))))))"

subsection \<open>Child health\<close>

definition register_child_logic :: "env \<Rightarrow> pydict \<Rightarrow> pyexc + reply" where
  "register_child_logic E data =
     (if data = [] \<or> \<not> has_key data ''child_details''
      then Inr (Status [(''error'', PStr ''Child details not provided'')] 400)
      else
        andthen (dict_item data ''child_details'') (\<lambda>child_details.
        let patient_id = uuid4 E 0 in
        andthen (py_get child_details ''family_name'' PNone) (\<lambda>family_name.
        andthen (py_get child_details ''given_name'' PNone) (\<lambda>given_name.
        andthen (py_get child_details ''birth_date'' PNone) (\<lambda>birth_date.
        andthen (py_get child_details ''gender'' PNone) (\<lambda>gender.
        andthen (py_get child_details ''identifier_system''
                   (PStr ''urn:oid:example-child-health-id'')) (\<lambda>identifier_system.
        andthen (py_get child_details ''identifier_value'' (PStr (uuid4 E 1)))
          (\<lambda>identifier_value.
        let patient_resource =
              [(''resourceType'', PStr ''Patient''),
               (''id'', PStr patient_id),
               (''name'', PList [PDict [(''use'', PStr ''official''), (''family'', family_name),
                                        (''given'', PList [given_name])]]),
               (''birthDate'', birth_date),
               (''gender'', gender),
               (''identifier'', PList [PDict [(''use'', PStr ''official''),
                                              (''system'', identifier_system),
                                              (''value'', identifier_value)]])]
        in Inr (Status
             [(''message'', PStr ''Child registration successful.''),
              (''patient'', PDict patient_resource)]
             201)))))))))"

text \<open>
  \<open>dt + relativedelta(months=m, days=k)\<close> of \<open>dateutil\<close>: the constructor moves
  whole dozens of months into years; the sum steps the month and the year, clips the
  day to the length of the new month, replaces the three fields (a \<open>ValueError\<close> when
  the year leaves 1 to 9999) and then adds the days as a \<open>timedelta\<close>.
\<close>

definition add_relativedelta :: "env \<Rightarrow> date \<Rightarrow> int \<Rightarrow> int \<Rightarrow> pyexc + date" where
  "add_relativedelta E dt months days =
     (let s = (if months < 0 then - 1 else 1);
          years = (if 11 < abs months then (months * s) div 12 * s else 0);
          ms = (if 11 < abs months then (months * s) mod 12 * s else months);
          y0 = year dt + years;
          m0 = (if ms \<noteq> 0 then month dt + ms else month dt);
          y1 = (if ms \<noteq> 0 \<and> 12 < m0 then y0 + 1 else if ms \<noteq> 0 \<and> m0 < 1 then y0 - 1 else y0);
          m1 = (if ms \<noteq> 0 \<and> 12 < m0 then m0 - 12 else if ms \<noteq> 0 \<and> m0 < 1 then m0 + 12 else m0);
          d1 = min (days_in_month y1 m1) (day dt)
      in if y1 < 1 \<or> 9999 < y1
         then Inl (ValueError (''year '' @ py_str E (PInt y1) @ '' is out of range''))
         else add_days (Date y1 m1 d1) days)"

text \<open>A row of \<open>immunization_plan\<close>: vaccine, age in months, dose.\<close>

type_synonym plan_item = "string \<times> real \<times> string"

definition immunization_plan :: "plan_item list" where
  "immunization_plan =
     [(''BCG'', 0, ''Birth dose''),
      (''OPV-0'', 0, ''Birth dose''),
      (''Hepatitis B - Birth'', 0, ''Birth dose''),
      (''Pentavalent-1 (DTP-HepB-Hib)'', 1.5, ''1st dose (6 weeks)''),
      (''OPV-1'', 1.5, ''1st dose (6 weeks)''),
      (''PCV-1'', 1.5, ''1st dose (6 weeks)''),
      (''Rotavirus-1'', 1.5, ''1st dose (6 weeks)''),
      (''Pentavalent-2'', 2.5, ''2nd dose (10 weeks)''),
      (''OPV-2'', 2.5, ''2nd dose (10 weeks)''),
      (''PCV-2'', 2.5, ''2nd dose (10 weeks)''),
      (''Rotavirus-2'', 2.5, ''2nd dose (10 weeks)''),
      (''Pentavalent-3'', 3.5, ''3rd dose (14 weeks)''),
      (''OPV-3'', 3.5, ''3rd dose (14 weeks)''),
      (''PCV-3'', 3.5, ''3rd dose (14 weeks)''),
      (''IPV-1'', 3.5, ''1st dose (14 weeks)''),
      (''Measles-Mumps-Rubella (MMR) - 1'', 9, ''1st dose''),
      (''Vitamin A - 1'', 9, ''1st dose''),
      (''Measles-Mumps-Rubella (MMR) - 2'', 15, ''2nd dose''),
      (''DTP Booster 1'', 18, ''Booster (1.5 years)''),
      (''OPV Booster 1'', 18, ''Booster (1.5 years)'')]"

definition vaccine_codes :: "(string \<times> string \<times> string \<times> string) list" where
  "vaccine_codes =
     [(''BCG'', ''http://loinc.org'', ''297BCG'', ''BCG Vaccine''),
      (''OPV'', ''http://loinc.org'', ''09OPV'', ''Oral Polio Vaccine''),
      (''Hepatitis B'', ''http://loinc.org'', ''08HEPB'', ''Hepatitis B Vaccine''),
      (''Pentavalent'', ''http://loinc.org'', ''115'', ''DTP-HepB-Hib Vaccine''),
      (''PCV'', ''http://loinc.org'', ''100PCV'', ''Pneumococcal Conjugate Vaccine''),
      (''Rotavirus'', ''http://loinc.org'', ''118ROTA'', ''Rotavirus Vaccine''),
      (''IPV'', ''http://loinc.org'', ''10IPV'', ''Inactivated Polio Vaccine''),
      (''MMR'', ''http://loinc.org'', ''04MMR'', ''MMR Vaccine''),
      (''Vitamin A'', ''http://snomed.info/sct'', ''37384000'', ''Vitamin A supplement'')]"

text \<open>The first key of \<open>vaccine_codes\<close> that occurs in the vaccine's name, else the name.\<close>

definition vaccine_code :: "string \<Rightarrow> string \<times> string \<times> string" where
  "vaccine_code vaccine =
     (case find (\<lambda>(key_part, c). str_contains key_part vaccine) vaccine_codes of
        Some (key_part, c) \<Rightarrow> c
      | None \<Rightarrow> (''http://example.org/vaccines'', str_upper (replace_space vaccine), vaccine))"

text \<open>The activity of one row, once its date and the end of its week are known.\<close>

definition immunization_activity :: "plan_item \<Rightarrow> date \<Rightarrow> date \<Rightarrow> pyval" where
  "immunization_activity item vaccine_date vaccine_end =
     (case item of (vaccine, age_months, dose) \<Rightarrow>
      case vaccine_code vaccine of (code_system, code_val, display_text) \<Rightarrow>
        PDict [(''detail'', PDict
          [(''kind'', PStr ''ImmunizationRecommendation''),
           (''code'', create_codeable_concept code_system code_val display_text PNone),
           (''status'', PStr ''scheduled''),
           (''description'', PStr (vaccine @ '' - '' @ dose)),
           (''scheduledPeriod'', PDict [(''start'', PStr (isoformat vaccine_date)),
                                        (''end'', PStr (isoformat vaccine_end))])])])"

text \<open>\<open>int(x)\<close> and \<open>x % 1\<close> on a number of the table.\<close>

definition trunc :: "real \<Rightarrow> int" where
  "trunc r = (if 0 \<le> r then \<lfloor>r\<rfloor> else \<lceil>r\<rceil>)"

fun immunization_activities :: "env \<Rightarrow> date \<Rightarrow> plan_item list \<Rightarrow> pyexc + pyval list" where
  "immunization_activities E dob [] = Inr []"
| "immunization_activities E dob (item # rest) =
     (let age_months = fst (snd item);
          full_months = trunc age_months;
          fractional_month_days = trunc (frac age_months * 30.4375)
      in andthen (add_relativedelta E dob full_months fractional_month_days) (\<lambda>vaccine_date.
         andthen (add_days vaccine_date 7) (\<lambda>vaccine_end.
         andthen (immunization_activities E dob rest) (\<lambda>activities.
         Inr (immunization_activity item vaccine_date vaccine_end # activities)))))"

definition get_immunization_schedule_logic :: "env \<Rightarrow> pydict \<Rightarrow> pyexc + reply" where
  "get_immunization_schedule_logic E data =
     (if data = [] \<or> \<not> has_key data ''dob'' \<or> \<not> has_key data ''patient_id''
      then Inr (Status [(''error'', PStr ''Date of Birth (dob) and patient_id are required'')] 400)
      else
        try_except_ValueError
          (andthen (dict_item data ''dob'') (\<lambda>dob_str.
           andthen (py_strptime E dob_str) (\<lambda>dob.
           andthen (dict_item data ''patient_id'') (\<lambda>patient_id.
           Inr (dob_str, dob, patient_id)))))
          (\<lambda>msg. Status [(''error'', PStr ''Invalid DOB format. Use YYYY-MM-DD.'')] 400)
          (\<lambda>(dob_str, dob, patient_id).
             let care_plan_id = uuid4 E 0 in
             andthen (immunization_activities E dob immunization_plan) (\<lambda>activities.
             Inr (Plain
               [(''resourceType'', PStr ''CarePlan''),
                (''id'', PStr care_plan_id),
                (''status'', PStr ''active''),
                (''intent'', PStr ''order''),
                (''title'', PStr ''Child Immunization Schedule''),
                (''description'',
                   PStr (''Recommended immunization schedule for child born on ''
                         @ py_str E dob_str @ ''.'')),
                (''subject'', create_fhir_reference E ''Patient'' patient_id PNone),
                (''activity'', PList activities),
                (''instantiatesCanonical'',
                   PList [PStr ''http://who.int/smart-guidelines/immunization/child''])]))))"

subsection \<open>Growth monitoring\<close>

definition required_fields :: "string list" where
  "required_fields =
     [''dob'', ''measurement_date'', ''weight_kg'', ''height_cm'', ''gender'', ''patient_id'']"

text \<open>\<open>x.lower()\<close>: only a string has it.\<close>

fun py_lower :: "pyval \<Rightarrow> pyexc + string" where
  "py_lower (PStr s) = Inr (str_lower s)"
| "py_lower _ = Inl AttributeError"

text \<open>\<open>round(x, 2)\<close>, to the nearest hundredth.\<close>

definition py_round2 :: "real \<Rightarrow> real" where
  "py_round2 x = of_int (round (x * 100)) / 100"

definition create_growth_observation ::
  "env \<Rightarrow> string \<Rightarrow> pyval \<Rightarrow> date \<Rightarrow> string \<Rightarrow> string \<Rightarrow> string \<Rightarrow> pyfloat \<Rightarrow> string
     \<Rightarrow> string \<Rightarrow> string \<Rightarrow> string \<Rightarrow> string \<Rightarrow> pyval" where
  "create_growth_observation E obs_id patient_id measurement_date code_system code display_text
       val unit interpretation_text interpretation_code_system interpretation_code
       interpretation_display =
     PDict
       [(''resourceType'', PStr ''Observation''),
        (''id'', PStr obs_id),
        (''status'', PStr ''final''),
        (''category'', PList [create_codeable_concept
             ''http://terminology.hl7.org/CodeSystem/observation-category'' ''vital-signs''
             ''Vital Signs'' PNone]),
        (''code'', create_codeable_concept code_system code display_text PNone),
        (''subject'', create_fhir_reference E ''Patient'' patient_id PNone),
        (''effectiveDateTime'', PStr (isoformat measurement_date)),
        (''valueQuantity'', PDict [(''value'', PFloat val), (''unit'', PStr unit),
                                   (''system'', PStr ''http://unitsofmeasure.org''),
                                   (''code'', PStr unit)]),
        (''interpretation'', PList [create_codeable_concept interpretation_code_system
             interpretation_code interpretation_display (PStr interpretation_text)])]"

text \<open>Interpretation text and code of the three indicators.\<close>

definition wfa_interpretation :: "real \<Rightarrow> pyfloat \<Rightarrow> string \<times> string" where
  "wfa_interpretation age_in_months weight_kg =
     (if age_in_months < 60 \<and> fl_lt weight_kg (Fin (2 + 0.5 * age_in_months))
      then (''Underweight (potential)'', ''L'')
      else (''Normal weight-for-age'', ''N''))"

definition hfa_interpretation :: "real \<Rightarrow> pyfloat \<Rightarrow> string \<times> string" where
  "hfa_interpretation age_in_months height_cm =
     (if age_in_months < 60 \<and> fl_lt height_cm (Fin (50 + age_in_months))
      then (''Stunted (potential)'', ''L'')
      else (''Normal height-for-age'', ''N''))"

text \<open>\<open>weight_kg / (height_cm / 100) ** 2\<close>.\<close>

definition bmi_like_of :: "pyfloat \<Rightarrow> pyfloat \<Rightarrow> pyexc + pyfloat" where
  "bmi_like_of weight_kg height_cm =
     andthen (fl_truediv height_cm (Fin 100)) (\<lambda>height_m. fl_truediv weight_kg (fl_square height_m))"

definition wfh_interpretation :: "real \<Rightarrow> pyfloat \<Rightarrow> pyfloat \<Rightarrow> pyexc + string \<times> string" where
  "wfh_interpretation age_in_months weight_kg height_cm =
     (if fl_lt (Fin 0) height_cm
      then andthen (if fl_lt (Fin 0) height_cm then bmi_like_of weight_kg height_cm
                    else Inr (Fin 0))
             (\<lambda>bmi_like.
               if fl_lt bmi_like (Fin 15) \<and> 6 < age_in_months
               then Inr (''Wasting (potential)'', ''L'')
               else if fl_lt (Fin 25) bmi_like \<and> 24 < age_in_months
               then Inr (''Overweight (potential)'', ''H'')
               else Inr (''Normal weight-for-height'', ''N''))
      else Inr (''Cannot calculate weight-for-height due to invalid height'', ''IE''))"

text \<open>
  \<open>all(obs['interpretation'][0]['code'] == "N" for obs in observations
        if obs['interpretation'][0].get('code'))\<close>
\<close>

fun all_codes_normal :: "pyval list \<Rightarrow> pyexc + bool" where
  "all_codes_normal [] = Inr True"
| "all_codes_normal (obs # rest) =
     andthen (py_item obs ''interpretation'') (\<lambda>interpretation.
     andthen (py_index0 interpretation) (\<lambda>first.
     andthen (py_get first ''code'' PNone) (\<lambda>c.
       if truthy c
       then andthen (py_item obs ''interpretation'') (\<lambda>interpretation.
            andthen (py_index0 interpretation) (\<lambda>first.
            andthen (py_item first ''code'') (\<lambda>code.
              if code = PStr ''N'' then all_codes_normal rest else Inr False)))
       else all_codes_normal rest)))"

definition interpretation_system :: string where
  "interpretation_system = ''http://terminology.hl7.org/CodeSystem/v3-ObservationInterpretation''"

definition overall_normal_text :: string where
  "overall_normal_text =
     ''Child growth appears normal based on provided measurements (simplified assessment).''"

definition overall_assess_text :: string where
  "overall_assess_text = ''Further assessment needed if any indicators are abnormal.''"

definition growth_disclaimer :: string where
  "growth_disclaimer =
     ''Z-score calculations and interpretations are highly simplified. ''
     @ ''Use WHO Anthro library or official tools for accurate assessment.''"

definition growth_monitoring_logic :: "env \<Rightarrow> pydict \<Rightarrow> pyexc + reply" where
  "growth_monitoring_logic E data =
     (if \<not> list_all (has_key data) required_fields
      then Inr (Status
             [(''error'', PStr (''Missing one or more required fields: ''
                 @ str_join '', '' (filter (\<lambda>field. \<not> has_key data field) required_fields)))]
             400)
      else
        try_except_ValueError
          (andthen (dict_item data ''dob'') (\<lambda>dob_v.
           andthen (py_strptime E dob_v) (\<lambda>dob.
           andthen (dict_item data ''measurement_date'') (\<lambda>md_v.
           andthen (py_strptime E md_v) (\<lambda>measurement_date.
           andthen (dict_item data ''weight_kg'') (\<lambda>w_v.
           andthen (py_float E w_v) (\<lambda>weight_kg.
           andthen (dict_item data ''height_cm'') (\<lambda>h_v.
           andthen (py_float E h_v) (\<lambda>height_cm.
           andthen (dict_item data ''gender'') (\<lambda>g_v.
           andthen (py_lower g_v) (\<lambda>gender.
           andthen (dict_item data ''patient_id'') (\<lambda>patient_id.
           if gender \<noteq> ''male'' \<and> gender \<noteq> ''female''
           then Inr (Inl (Status [(''error'',
                   PStr (''Gender must be '' @ [CHR 0x27] @ ''male'' @ [CHR 0x27] @ '' or ''
                         @ [CHR 0x27] @ ''female'' @ [CHR 0x27]))] 400))
           else Inr (Inr (dob, measurement_date, weight_kg, height_cm, gender,
                          patient_id))))))))))))))
          (\<lambda>msg. Status [(''error'', PStr (''Invalid data type or date format: '' @ msg
                  @ ''. Use YYYY-MM-DD for dates, numbers for measurements.''))] 400)
          (\<lambda>r. case r of
             Inl early \<Rightarrow> Inr early
           | Inr (dob, measurement_date, weight_kg, height_cm, gender, patient_id) \<Rightarrow>
             let age_in_days = days_between measurement_date dob in
             if age_in_days < 0
             then Inr (Status [(''error'',
                     PStr ''Measurement date cannot be before date of birth.'')] 400)
             else
               let age_in_months = of_int age_in_days / 30.4375;
                   wfa = wfa_interpretation age_in_months weight_kg;
                   obs1 = create_growth_observation E (uuid4 E 0) patient_id measurement_date
                            ''http://loinc.org'' ''3141-9'' ''Body weight Measured -- Wt/Age''
                            weight_kg ''kg'' (fst wfa) interpretation_system (snd wfa) (fst wfa);
                   hfa = hfa_interpretation age_in_months height_cm;
                   obs2 = create_growth_observation E (uuid4 E 1) patient_id measurement_date
                            ''http://loinc.org'' ''8308-9'' ''Body height Measured -- Ht/Age''
                            height_cm ''cm'' (fst hfa) interpretation_system (snd hfa) (fst hfa)
               in
               andthen (wfh_interpretation age_in_months weight_kg height_cm) (\<lambda>wfh.
               let obs3 = create_growth_observation E (uuid4 E 2) patient_id measurement_date
                            ''http://loinc.org'' ''8340-2'' ''Body weight Measured -- Wt/Len''
                            weight_kg ''kg'' (fst wfh) interpretation_system (snd wfh) (fst wfh);
                   observations = [obs1, obs2, obs3]
               in
               andthen (all_codes_normal observations) (\<lambda>normal.
               let overall_health_status =
                     (if normal then overall_normal_text else overall_assess_text)
               in Inr (Plain
                    [(''message'',
                        PStr ''Growth monitoring data processed (simplified assessment).''),
                     (''age_in_days'', PInt age_in_days),
                     (''age_in_months'', PFloat (Fin (py_round2 age_in_months))),
                     (''measurements_processed'',
                        PDict [(''weight_kg'', PFloat weight_kg),
                               (''height_cm'', PFloat height_cm),
                               (''gender'', PStr gender)]),
                     (''fhir_observations'', PList observations),
                     (''overall_health_status_note'', PStr overall_health_status),
                     (''disclaimer'', PStr growth_disclaimer)])))))"

section \<open>The tool surface\<close>

text \<open>Each tool packs its named parameters into a dictionary for the logic function;
  a parameter that the caller leaves out arrives as \<open>None\<close>.\<close>

definition register_pregnancy_mcp :: "env \<Rightarrow> pyval \<Rightarrow> pyexc + reply" where
  "register_pregnancy_mcp E patient_details =
     register_pregnancy_logic E [(''patient_details'', patient_details)]"

definition calculate_edd_mcp :: "env \<Rightarrow> pyval \<Rightarrow> pyexc + reply" where
  "calculate_edd_mcp E lmp_date = calculate_edd_logic E [(''lmp_date'', lmp_date)]"

definition schedule_anc_visits_mcp :: "env \<Rightarrow> pyval \<Rightarrow> pyval \<Rightarrow> pyval \<Rightarrow> pyexc + reply" where
  "schedule_anc_visits_mcp E lmp_date edd_date patient_id =
     schedule_anc_visits_logic E
       [(''lmp_date'', lmp_date), (''edd_date'', edd_date), (''patient_id'', patient_id)]"

definition analyze_anc_visit_data_mcp :: "env \<Rightarrow> pyval \<Rightarrow> pyval \<Rightarrow> pyval \<Rightarrow> pyexc + reply" where
  "analyze_anc_visit_data_mcp E vitals symptoms patient_id =
     analyze_anc_visit_data_logic E
       [(''vitals'', vitals), (''symptoms'', symptoms), (''patient_id'', patient_id)]"

definition register_child_mcp :: "env \<Rightarrow> pyval \<Rightarrow> pyexc + reply" where
  "register_child_mcp E child_details =
     register_child_logic E [(''child_details'', child_details)]"

definition get_immunization_schedule_mcp :: "env \<Rightarrow> pyval \<Rightarrow> pyval \<Rightarrow> pyexc + reply" where
  "get_immunization_schedule_mcp E dob patient_id =
     get_immunization_schedule_logic E [(''dob'', dob), (''patient_id'', patient_id)]"

definition growth_monitoring_mcp ::
  "env \<Rightarrow> pyval \<Rightarrow> pyval \<Rightarrow> pyval \<Rightarrow> pyval \<Rightarrow> pyval \<Rightarrow> pyval \<Rightarrow> pyexc + reply" where
  "growth_monitoring_mcp E dob measurement_date weight_kg height_cm gender patient_id =
     growth_monitoring_logic E
       [(''dob'', dob), (''measurement_date'', measurement_date), (''weight_kg'', weight_kg),
        (''height_cm'', height_cm), (''gender'', gender), (''patient_id'', patient_id)]"

section \<open>The HTTP surface\<close>

text \<open>
  The Flask views of \<open>main.py\<close> carry their own copy of the logic. The optional
  \<open>fhir.resources\<close> package is taken as absent, so every view follows its
  dictionary fallback; \<open>data\<close> is the JSON object of the request body.
\<close>

definition FHIR_RESOURCES_AVAILABLE :: bool where
  "FHIR_RESOURCES_AVAILABLE = False"

definition create_fhir_reference_http :: "env \<Rightarrow> string \<Rightarrow> pyval \<Rightarrow> pyval \<Rightarrow> pyval" where
  "create_fhir_reference_http E resource_type resource_id display =
     PDict [(''reference'', PStr (resource_type @ ''/'' @ py_str E resource_id)),
            (''display'', display)]"

definition bp_check_http :: "pyval \<Rightarrow> pyval \<Rightarrow> pyexc + bool" where
  "bp_check_http bp_systolic bp_diastolic =
     (if truthy bp_systolic \<and> truthy bp_diastolic
      then andthen (py_ge_int bp_systolic 140) (\<lambda>s.
             if s then Inr True else py_ge_int bp_diastolic 90)
      else Inr False)"

definition analyze_anc_visit_data_http :: "env \<Rightarrow> pydict \<Rightarrow> pyexc + reply" where
  "analyze_anc_visit_data_http E data =
     andthen (py_get (dict_get data ''vitals'' (PDict [])) ''bp_systolic'' PNone) (\<lambda>bp_systolic.
     andthen (py_get (dict_get data ''vitals'' (PDict [])) ''bp_diastolic'' PNone) (\<lambda>bp_diastolic.
     andthen (bp_check_http bp_systolic bp_diastolic) (\<lambda>bp.
     andthen (py_get (dict_get data ''symptoms'' (PDict [])) ''bleeding'' PNone) (\<lambda>bleeding.
     Inr (Plain (finish_analysis bp bleeding))))))"

fun immunization_activities_http :: "env \<Rightarrow> date \<Rightarrow> plan_item list \<Rightarrow> pyexc + pyval list" where
  "immunization_activities_http E dob [] = Inr []"
| "immunization_activities_http E dob (item # rest) =
     (let age_months = fst (snd item) in
      andthen (add_relativedelta E dob (trunc age_months) (trunc (frac age_months * 30)))
        (\<lambda>vaccine_date.
      andthen (add_days vaccine_date 7) (\<lambda>vaccine_end.
      andthen (immunization_activities_http E dob rest) (\<lambda>activities.
      Inr (immunization_activity item vaccine_date vaccine_end # activities)))))"

definition get_immunization_schedule_http :: "env \<Rightarrow> pydict \<Rightarrow> pyexc + reply" where
  "get_immunization_schedule_http E data =
     (if data = [] \<or> \<not> has_key data ''dob'' \<or> \<not> has_key data ''patient_id''
      then Inr (Status [(''error'', PStr ''Date of Birth (dob) and patient_id are required'')] 400)
      else
        try_except_ValueError
          (andthen (dict_item data ''dob'') (\<lambda>dob_str.
           andthen (py_strptime E dob_str) (\<lambda>dob.
           andthen (dict_item data ''patient_id'') (\<lambda>patient_id.
           Inr (dob_str, dob, patient_id)))))
          (\<lambda>msg. Status [(''error'', PStr ''Invalid DOB format. Use YYYY-MM-DD.'')] 400)
          (\<lambda>(dob_str, dob, patient_id).
             let care_plan_id = uuid4 E 0 in
             andthen (immunization_activities_http E dob immunization_plan) (\<lambda>activities.
             Inr (Plain
               [(''resourceType'', PStr ''CarePlan''),
                (''id'', PStr care_plan_id),
                (''status'', PStr ''active''),
                (''intent'', PStr ''order''),
                (''title'', PStr ''Child Immunization Schedule''),
                (''subject'', create_fhir_reference_http E ''Patient'' patient_id PNone),
                (''activity'', PList activities),
                (''instantiatesCanonical'',
                   PList [PStr ''http://who.int/smart-guidelines/immunization/child''])]))))"

text \<open>\<open>str(xs)\<close> of a list of strings, as the f-string of the missing-field message
  prints \<open>required_fields\<close>.\<close>

definition str_of_str_list :: "string list \<Rightarrow> string" where
  "str_of_str_list xs =
     ''['' @ str_join '', '' (map (\<lambda>x. [CHR 0x27] @ x @ [CHR 0x27]) xs) @ '']''"

definition create_growth_observation_http ::
  "env \<Rightarrow> string \<Rightarrow> pyval \<Rightarrow> date \<Rightarrow> string \<Rightarrow> string \<Rightarrow> string \<Rightarrow> pyfloat \<Rightarrow> string
     \<Rightarrow> string \<Rightarrow> string \<Rightarrow> string \<Rightarrow> string \<Rightarrow> pyval" where
  "create_growth_observation_http E obs_id patient_id measurement_date code_system code
       display_text val unit interpretation_text interpretation_code_system
       interpretation_code interpretation_display =
     PDict
       [(''resourceType'', PStr ''Observation''),
        (''id'', PStr obs_id),
        (''status'', PStr ''final''),
        (''code'', create_codeable_concept code_system code display_text PNone),
        (''subject'', create_fhir_reference_http E ''Patient'' patient_id PNone),
        (''effectiveDateTime'', PStr (isoformat measurement_date)),
        (''valueQuantity'', PDict [(''value'', PFloat val), (''unit'', PStr unit)]),
        (''interpretation'', PList [create_codeable_concept interpretation_code_system
             interpretation_code interpretation_display (PStr interpretation_text)])]"

definition wfh_interpretation_http ::
  "real \<Rightarrow> pyfloat \<Rightarrow> pyfloat \<Rightarrow> pyexc + string \<times> string" where
  "wfh_interpretation_http age_in_months weight_kg height_cm =
     andthen (if fl_lt (Fin 0) height_cm
              then andthen (bmi_like_of weight_kg height_cm)
                     (\<lambda>q. Inr (fl_lt q (Fin 15) \<and> 6 < age_in_months))
              else Inr False) (\<lambda>wasting.
     if wasting then Inr (''Wasting (potential)'', ''L'')
     else
       andthen (if fl_lt (Fin 0) height_cm
                then andthen (bmi_like_of weight_kg height_cm)
                       (\<lambda>q. Inr (fl_lt (Fin 25) q \<and> 24 < age_in_months))
                else Inr False) (\<lambda>overweight.
       if overweight then Inr (''Overweight (potential)'', ''H'')
       else Inr (''Normal weight-for-height'', ''N'')))"

text \<open>\<open>x.startswith("Normal")\<close>: only a string has it.\<close>

fun py_startswith :: "pyval \<Rightarrow> string \<Rightarrow> pyexc + bool" where
  "py_startswith (PStr s) p = Inr (starts_with s p)"
| "py_startswith _ p = Inl AttributeError"

text \<open>
  \<open>all(obs['interpretation'][0]['text'].startswith("Normal") for obs in observations
        if FHIR_RESOURCES_AVAILABLE is False)\<close> runs over the filtered list with the
  first function; \<open>all(obs.interpretation[0].text.startswith("Normal") for obs in
  observations if FHIR_RESOURCES_AVAILABLE)\<close> runs over its filtered list with the
  second, where reading the attribute \<open>interpretation\<close> of a dictionary raises.
\<close>

fun all_text_normal :: "pyval list \<Rightarrow> pyexc + bool" where
  "all_text_normal [] = Inr True"
| "all_text_normal (obs # rest) =
     andthen (py_item obs ''interpretation'') (\<lambda>interpretation.
     andthen (py_index0 interpretation) (\<lambda>first.
     andthen (py_item first ''text'') (\<lambda>text.
     andthen (py_startswith text ''Normal'') (\<lambda>b.
       if b then all_text_normal rest else Inr False))))"

fun all_attr_text_normal :: "pyval list \<Rightarrow> pyexc + bool" where
  "all_attr_text_normal [] = Inr True"
| "all_attr_text_normal (obs # rest) = Inl AttributeError"

definition overall_normal_http :: "pyval list \<Rightarrow> pyexc + bool" where
  "overall_normal_http observations =
     andthen (all_text_normal (filter (\<lambda>obs. FHIR_RESOURCES_AVAILABLE = False) observations))
       (\<lambda>a. if a then Inr True
             else all_attr_text_normal (filter (\<lambda>obs. FHIR_RESOURCES_AVAILABLE) observations))"

definition growth_monitoring_http :: "env \<Rightarrow> pydict \<Rightarrow> pyexc + reply" where
  "growth_monitoring_http E data =
     (if \<not> list_all (has_key data) required_fields
      then Inr (Status
             [(''error'', PStr (''Missing one or more required fields: ''
                 @ str_of_str_list required_fields))]
             400)
      else
        try_except_ValueError
          (andthen (dict_item data ''dob'') (\<lambda>dob_v.
           andthen (py_strptime E dob_v) (\<lambda>dob.
           andthen (dict_item data ''measurement_date'') (\<lambda>md_v.
           andthen (py_strptime E md_v) (\<lambda>measurement_date.
           andthen (dict_item data ''weight_kg'') (\<lambda>w_v.
           andthen (py_float E w_v) (\<lambda>weight_kg.
           andthen (dict_item data ''height_cm'') (\<lambda>h_v.
           andthen (py_float E h_v) (\<lambda>height_cm.
           andthen (dict_item data ''gender'') (\<lambda>g_v.
           andthen (py_lower g_v) (\<lambda>gender.
           andthen (dict_item data ''patient_id'') (\<lambda>patient_id.
           if gender \<noteq> ''male'' \<and> gender \<noteq> ''female''
           then Inr (Inl (Status [(''error'',
                   PStr (''Gender must be '' @ [CHR 0x27] @ ''male'' @ [CHR 0x27] @ '' or ''
                         @ [CHR 0x27] @ ''female'' @ [CHR 0x27]))] 400))
           else Inr (Inr (dob, measurement_date, weight_kg, height_cm, gender,
                          patient_id))))))))))))))
          (\<lambda>msg. Status [(''error'', PStr (''Invalid data type or date format. ''
                  @ ''Use YYYY-MM-DD for dates, numbers for measurements.''))] 400)
          (\<lambda>r. case r of
             Inl early \<Rightarrow> Inr early
           | Inr (dob, measurement_date, weight_kg, height_cm, gender, patient_id) \<Rightarrow>
             let age_in_days = days_between measurement_date dob;
                 age_in_months = of_int age_in_days / 30.4375;
                 wfa = wfa_interpretation age_in_months weight_kg;
                 obs1 = create_growth_observation_http E (uuid4 E 0) patient_id measurement_date
                          ''http://loinc.org'' ''3141-9'' ''Body weight Measured -- Wt/Age''
                          weight_kg ''kg'' (fst wfa) interpretation_system (snd wfa) (fst wfa);
                 hfa = hfa_interpretation age_in_months height_cm;
                 obs2 = create_growth_observation_http E (uuid4 E 1) patient_id measurement_date
                          ''http://loinc.org'' ''8308-9'' ''Body height Measured -- Ht/Age''
                          height_cm ''cm'' (fst hfa) interpretation_system (snd hfa) (fst hfa)
             in
             andthen (wfh_interpretation_http age_in_months weight_kg height_cm) (\<lambda>wfh.
             let obs3 = create_growth_observation_http E (uuid4 E 2) patient_id measurement_date
                          ''http://loinc.org'' ''8340-2'' ''Body weight Measured -- Wt/Len''
                          weight_kg ''kg'' (fst wfh) interpretation_system (snd wfh) (fst wfh);
                 observations = [obs1, obs2, obs3]
             in
             andthen (overall_normal_http observations) (\<lambda>normal.
             let overall_health_status =
                   (if normal then overall_normal_text else overall_assess_text)
             in Inr (Plain
                  [(''message'',
                      PStr ''Growth monitoring data processed (simplified assessment).''),
                   (''age_in_days'', PInt age_in_days),
                   (''age_in_months'', PFloat (Fin (py_round2 age_in_months))),
                   (''measurements_processed'',
                      PDict [(''weight_kg'', PFloat weight_kg),
                             (''height_cm'', PFloat height_cm),
                             (''gender'', PStr gender)]),
                   (''fhir_observations'', PList observations),
                   (''overall_health_status_note'', PStr overall_health_status),
                   (''disclaimer'', PStr growth_disclaimer)])))))"

section \<open>Reading a reply\<close>

text \<open>What the properties below observe of a reply.\<close>

definition reply_body :: "reply \<Rightarrow> pydict" where
  "reply_body r = (case r of Plain d \<Rightarrow> d | Status d c \<Rightarrow> d)"

definition reply_status :: "reply \<Rightarrow> int option" where
  "reply_status r = (case r of Plain d \<Rightarrow> None | Status d c \<Rightarrow> Some c)"

text \<open>The value under a path of keys in nested dictionaries.\<close>

fun at_path :: "pyval \<Rightarrow> string list \<Rightarrow> pyval option" where
  "at_path v [] = Some v"
| "at_path (PDict d) (k # ks) = (case map_of d k of None \<Rightarrow> None | Some w \<Rightarrow> at_path w ks)"
| "at_path _ (k # ks) = None"

definition list_items :: "pyval option \<Rightarrow> pyval list" where
  "list_items v = (case v of Some (PList xs) \<Rightarrow> xs | _ \<Rightarrow> [])"

text \<open>The entries of a care plan, and the start of each entry's scheduled period.\<close>

definition activities :: "pydict \<Rightarrow> pyval list" where
  "activities plan = list_items (map_of plan ''activity'')"

definition scheduled_start :: "pyval \<Rightarrow> pyval option" where
  "scheduled_start activity = at_path activity [''detail'', ''scheduledPeriod'', ''start'']"

definition entry_description :: "pyval \<Rightarrow> pyval option" where
  "entry_description activity = at_path activity [''detail'', ''description'']"

text \<open>The interpretation code of an observation: the code of the first coding of its
  first interpretation.\<close>

definition interpretation_code :: "pyval \<Rightarrow> pyval option" where
  "interpretation_code obs =
     (case list_items (at_path obs [''interpretation'']) of
        [] \<Rightarrow> None
      | i # _ \<Rightarrow> (case list_items (at_path i [''coding'']) of
                    [] \<Rightarrow> None
                  | c # _ \<Rightarrow> at_path c [''code'']))"

definition observation_codes :: "pydict \<Rightarrow> pyval option list" where
  "observation_codes body = map interpretation_code (list_items (map_of body ''fhir_observations''))"

text \<open>The risk entries of an analysis and those that carry a given risk code.\<close>

definition risks :: "pydict \<Rightarrow> pyval list" where
  "risks body = list_items (map_of body ''risks_identified'')"

definition recommendations :: "pydict \<Rightarrow> pyval list" where
  "recommendations body = list_items (map_of body ''recommendations'')"

definition risks_with_code :: "string \<Rightarrow> pydict \<Rightarrow> pyval list" where
  "risks_with_code c body = filter (\<lambda>r. at_path r [''risk_code''] = Some (PStr c)) (risks body)"

text \<open>The dictionary of a reply that carries no status code, if the call returned one.\<close>

definition plain_body :: "pyexc + reply \<Rightarrow> pydict option" where
  "plain_body r = (case r of Inr (Plain d) \<Rightarrow> Some d | _ \<Rightarrow> None)"

text \<open>What a call shows of a care plan: the exception, or else the status code and
  the entries.\<close>

definition plan_view :: "pyexc + reply \<Rightarrow> pyexc + int option \<times> pyval list" where
  "plan_view r = (case r of Inl e \<Rightarrow> Inl e
                  | Inr p \<Rightarrow> Inr (reply_status p, activities (reply_body p)))"

text \<open>An int or a finite float, and its value.\<close>

fun finite_number :: "pyval \<Rightarrow> bool" where
  "finite_number (PInt i) = True"
| "finite_number (PFloat (Fin r)) = True"
| "finite_number _ = False"

fun num_val :: "pyval \<Rightarrow> real" where
  "num_val (PInt i) = of_int i"
| "num_val (PFloat (Fin r)) = r"
| "num_val _ = 0"

fun is_dict :: "pyval \<Rightarrow> bool" where
  "is_dict (PDict d) = True"
| "is_dict _ = False"

text \<open>An environment for the worked examples.\<close>

definition demo_env :: env where
  "demo_env =
     \<lparr>uuid4 = (\<lambda>n. ''00000000-0000-4000-8000-00000000000'' @ [digit_char (int n mod 10)]),
      utcnow_iso = ''2024-06-01T12:00:00'',
      str_other = (\<lambda>v. ''?''),
      int_of_str = (\<lambda>s. None),
      float_of_str = (\<lambda>s. None),
      strptime_msg = (\<lambda>s. ''time data does not match format''),
      float_msg = (\<lambda>s. ''could not convert string to float'')\<rparr>"

section \<open>Notions used in the proofs\<close>

text \<open>What \<open>month_day\<close> owes for day \<open>n\<close> of year \<open>y\<close>: a month, a day of that month,
  and together the \<open>n\<close>-th day.\<close>

definition doy_check :: "int \<Rightarrow> int \<Rightarrow> bool" where
  "doy_check y n =
     (case month_day y (is_leap y) n of (mm, dd) \<Rightarrow>
        1 \<le> mm \<and> mm \<le> 12 \<and> 1 \<le> dd \<and> dd \<le> days_in_month y mm
        \<and> days_before_month y mm + dd = n + 1)"

section \<open>The calendar arithmetic\<close>

lemma div_eqI: fixes y k q r :: int
  assumes "y = k * q + r" "0 \<le> r" "r < k" shows "y div k = q"
  using assms by (simp add: div_pos_pos_trivial)

lemma mod_eqI: fixes y k q r :: int
  assumes "y = k * q + r" "0 \<le> r" "r < k" shows "y mod k = r"
  using assms by (simp add: mod_pos_pos_trivial)

lemma div_between: fixes x k q :: int
  assumes "k * q \<le> x" "x < k * q + k" shows "x div k = q"
  by (rule div_eqI [where r = "x - k * q"]) (use assms in simp_all)

lemma doy_leap_1: assumes lp: "is_leap y" and "0 \<le> n" "n \<le> 30" shows "doy_check y n"
proof -
  have lo: "0 \<le> n" using assms by simp
  show ?thesis
  proof (cases "n + 50 < 64")
    case True
    have "(n + 50) div 32 = 1" by (rule div_between) (use assms(2,3) lo True in simp_all)
    then show ?thesis using assms lo True by (simp add: doy_check_def month_day_def Let_def days_in_month_def days_before_month_def)
  next
    case False
    have "(n + 50) div 32 = 2" by (rule div_between) (use assms(2,3) lo False in simp_all)
    then show ?thesis using assms lo False by (simp add: doy_check_def month_day_def Let_def days_in_month_def days_before_month_def)
  qed
qed

lemma doy_leap_2: assumes lp: "is_leap y" and "0 \<le> n" "n \<le> 59" shows "doy_check y n"
proof (cases "n \<le> 30")
  case True
  then show ?thesis using assms doy_leap_1 [of y n] by simp
next
  case before: False
  then have lo: "31 \<le> n" by simp
  show ?thesis
  proof (cases "n + 50 < 96")
    case True
    have "(n + 50) div 32 = 2" by (rule div_between) (use assms(2,3) lo True in simp_all)
    then show ?thesis using assms lo True by (simp add: doy_check_def month_day_def Let_def days_in_month_def days_before_month_def)
  next
    case False
    have "(n + 50) div 32 = 3" by (rule div_between) (use assms(2,3) lo False in simp_all)
    then show ?thesis using assms lo False by (simp add: doy_check_def month_day_def Let_def days_in_month_def days_before_month_def)
  qed
qed

lemma doy_leap_3: assumes lp: "is_leap y" and "0 \<le> n" "n \<le> 90" shows "doy_check y n"
proof (cases "n \<le> 59")
  case True
  then show ?thesis using assms doy_leap_2 [of y n] by simp
next
  case before: False
  then have lo: "60 \<le> n" by simp
  show ?thesis
  proof (cases "n + 50 < 128")
    case True
    have "(n + 50) div 32 = 3" by (rule div_between) (use assms(2,3) lo True in simp_all)
    then show ?thesis using assms lo True by (simp add: doy_check_def month_day_def Let_def days_in_month_def days_before_month_def)
  next
    case False
    have "(n + 50) div 32 = 4" by (rule div_between) (use assms(2,3) lo False in simp_all)
    then show ?thesis using assms lo False by (simp add: doy_check_def month_day_def Let_def days_in_month_def days_before_month_def)
  qed
qed

lemma doy_leap_4: assumes lp: "is_leap y" and "0 \<le> n" "n \<le> 120" shows "doy_check y n"
proof (cases "n \<le> 90")
  case True
  then show ?thesis using assms doy_leap_3 [of y n] by simp
next
  case before: False
  then have lo: "91 \<le> n" by simp
  show ?thesis
  proof (cases "n + 50 < 160")
    case True
    have "(n + 50) div 32 = 4" by (rule div_between) (use assms(2,3) lo True in simp_all)
    then show ?thesis using assms lo True by (simp add: doy_check_def month_day_def Let_def days_in_month_def days_before_month_def)
  next
    case False
    have "(n + 50) div 32 = 5" by (rule div_between) (use assms(2,3) lo False in simp_all)
    then show ?thesis using assms lo False by (simp add: doy_check_def month_day_def Let_def days_in_month_def days_before_month_def)
  qed
qed

lemma doy_leap_5: assumes lp: "is_leap y" and "0 \<le> n" "n \<le> 151" shows "doy_check y n"
proof (cases "n \<le> 120")
  case True
  then show ?thesis using assms doy_leap_4 [of y n] by simp
next
  case before: False
  then have lo: "121 \<le> n" by simp
  show ?thesis
  proof (cases "n + 50 < 192")
    case True
    have "(n + 50) div 32 = 5" by (rule div_between) (use assms(2,3) lo True in simp_all)
    then show ?thesis using assms lo True by (simp add: doy_check_def month_day_def Let_def days_in_month_def days_before_month_def)
  next
    case False
    have "(n + 50) div 32 = 6" by (rule div_between) (use assms(2,3) lo False in simp_all)
    then show ?thesis using assms lo False by (simp add: doy_check_def month_day_def Let_def days_in_month_def days_before_month_def)
  qed
qed

lemma doy_leap_6: assumes lp: "is_leap y" and "0 \<le> n" "n \<le> 181" shows "doy_check y n"
proof (cases "n \<le> 151")
  case True
  then show ?thesis using assms doy_leap_5 [of y n] by simp
next
  case before: False
  then have lo: "152 \<le> n" by simp
  show ?thesis
  proof (cases "n + 50 < 224")
    case True
    have "(n + 50) div 32 = 6" by (rule div_between) (use assms(2,3) lo True in simp_all)
    then show ?thesis using assms lo True by (simp add: doy_check_def month_day_def Let_def days_in_month_def days_before_month_def)
  next
    case False
    have "(n + 50) div 32 = 7" by (rule div_between) (use assms(2,3) lo False in simp_all)
    then show ?thesis using assms lo False by (simp add: doy_check_def month_day_def Let_def days_in_month_def days_before_month_def)
  qed
qed

lemma doy_leap_7: assumes lp: "is_leap y" and "0 \<le> n" "n \<le> 212" shows "doy_check y n"
proof (cases "n \<le> 181")
  case True
  then show ?thesis using assms doy_leap_6 [of y n] by simp
next
  case before: False
  then have lo: "182 \<le> n" by simp
  show ?thesis
  proof (cases "n + 50 < 256")
    case True
    have "(n + 50) div 32 = 7" by (rule div_between) (use assms(2,3) lo True in simp_all)
    then show ?thesis using assms lo True by (simp add: doy_check_def month_day_def Let_def days_in_month_def days_before_month_def)
  next
    case False
    have "(n + 50) div 32 = 8" by (rule div_between) (use assms(2,3) lo False in simp_all)
    then show ?thesis using assms lo False by (simp add: doy_check_def month_day_def Let_def days_in_month_def days_before_month_def)
  qed
qed

lemma doy_leap_8: assumes lp: "is_leap y" and "0 \<le> n" "n \<le> 243" shows "doy_check y n"
proof (cases "n \<le> 212")
  case True
  then show ?thesis using assms doy_leap_7 [of y n] by simp
next
  case before: False
  then have lo: "213 \<le> n" by simp
  show ?thesis
  proof (cases "n + 50 < 288")
    case True
    have "(n + 50) div 32 = 8" by (rule div_between) (use assms(2,3) lo True in simp_all)
    then show ?thesis using assms lo True by (simp add: doy_check_def month_day_def Let_def days_in_month_def days_before_month_def)
  next
    case False
    have "(n + 50) div 32 = 9" by (rule div_between) (use assms(2,3) lo False in simp_all)
    then show ?thesis using assms lo False by (simp add: doy_check_def month_day_def Let_def days_in_month_def days_before_month_def)
  qed
qed

lemma doy_leap_9: assumes lp: "is_leap y" and "0 \<le> n" "n \<le> 273" shows "doy_check y n"
proof (cases "n \<le> 243")
  case True
  then show ?thesis using assms doy_leap_8 [of y n] by simp
next
  case before: False
  then have lo: "244 \<le> n" by simp
  show ?thesis
  proof (cases "n + 50 < 320")
    case True
    have "(n + 50) div 32 = 9" by (rule div_between) (use assms(2,3) lo True in simp_all)
    then show ?thesis using assms lo True by (simp add: doy_check_def month_day_def Let_def days_in_month_def days_before_month_def)
  next
    case False
    have "(n + 50) div 32 = 10" by (rule div_between) (use assms(2,3) lo False in simp_all)
    then show ?thesis using assms lo False by (simp add: doy_check_def month_day_def Let_def days_in_month_def days_before_month_def)
  qed
qed

lemma doy_leap_10: assumes lp: "is_leap y" and "0 \<le> n" "n \<le> 304" shows "doy_check y n"
proof (cases "n \<le> 273")
  case True
  then show ?thesis using assms doy_leap_9 [of y n] by simp
next
  case before: False
  then have lo: "274 \<le> n" by simp
  show ?thesis
  proof (cases "n + 50 < 352")
    case True
    have "(n + 50) div 32 = 10" by (rule div_between) (use assms(2,3) lo True in simp_all)
    then show ?thesis using assms lo True by (simp add: doy_check_def month_day_def Let_def days_in_month_def days_before_month_def)
  next
    case False
    have "(n + 50) div 32 = 11" by (rule div_between) (use assms(2,3) lo False in simp_all)
    then show ?thesis using assms lo False by (simp add: doy_check_def month_day_def Let_def days_in_month_def days_before_month_def)
  qed
qed

lemma doy_leap_11: assumes lp: "is_leap y" and "0 \<le> n" "n \<le> 334" shows "doy_check y n"
proof (cases "n \<le> 304")
  case True
  then show ?thesis using assms doy_leap_10 [of y n] by simp
next
  case before: False
  then have lo: "305 \<le> n" by simp
  show ?thesis
  proof (cases "n + 50 < 384")
    case True
    have "(n + 50) div 32 = 11" by (rule div_between) (use assms(2,3) lo True in simp_all)
    then show ?thesis using assms lo True by (simp add: doy_check_def month_day_def Let_def days_in_month_def days_before_month_def)
  next
    case False
    have "(n + 50) div 32 = 12" by (rule div_between) (use assms(2,3) lo False in simp_all)
    then show ?thesis using assms lo False by (simp add: doy_check_def month_day_def Let_def days_in_month_def days_before_month_def)
  qed
qed

lemma doy_leap_12: assumes lp: "is_leap y" and "0 \<le> n" "n \<le> 364" shows "doy_check y n"
proof (cases "n \<le> 334")
  case True
  then show ?thesis using assms doy_leap_11 [of y n] by simp
next
  case before: False
  then have lo: "335 \<le> n" by simp
  show ?thesis
  proof (cases "n + 50 < 416")
    case True
    have "(n + 50) div 32 = 12" by (rule div_between) (use assms(2,3) lo True in simp_all)
    then show ?thesis using assms lo True by (simp add: doy_check_def month_day_def Let_def days_in_month_def days_before_month_def)
  next
    case False
    have "(n + 50) div 32 = 13" by (rule div_between) (use assms(2,3) lo False in simp_all)
    then show ?thesis using assms lo False by (simp add: doy_check_def month_day_def Let_def days_in_month_def days_before_month_def)
  qed
qed

lemma doy_common_1: assumes lp: "\<not> is_leap y" and "0 \<le> n" "n \<le> 30" shows "doy_check y n"
proof -
  have lo: "0 \<le> n" using assms by simp
  show ?thesis
  proof (cases "n + 50 < 64")
    case True
    have "(n + 50) div 32 = 1" by (rule div_between) (use assms(2,3) lo True in simp_all)
    then show ?thesis using assms lo True by (simp add: doy_check_def month_day_def Let_def days_in_month_def days_before_month_def)
  next
    case False
    have "(n + 50) div 32 = 2" by (rule div_between) (use assms(2,3) lo False in simp_all)
    then show ?thesis using assms lo False by (simp add: doy_check_def month_day_def Let_def days_in_month_def days_before_month_def)
  qed
qed

lemma doy_common_2: assumes lp: "\<not> is_leap y" and "0 \<le> n" "n \<le> 58" shows "doy_check y n"
proof (cases "n \<le> 30")
  case True
  then show ?thesis using assms doy_common_1 [of y n] by simp
next
  case before: False
  then have lo: "31 \<le> n" by simp
  show ?thesis
  proof (cases "n + 50 < 96")
    case True
    have "(n + 50) div 32 = 2" by (rule div_between) (use assms(2,3) lo True in simp_all)
    then show ?thesis using assms lo True by (simp add: doy_check_def month_day_def Let_def days_in_month_def days_before_month_def)
  next
    case False
    have "(n + 50) div 32 = 3" by (rule div_between) (use assms(2,3) lo False in simp_all)
    then show ?thesis using assms lo False by (simp add: doy_check_def month_day_def Let_def days_in_month_def days_before_month_def)
  qed
qed

lemma doy_common_3: assumes lp: "\<not> is_leap y" and "0 \<le> n" "n \<le> 89" shows "doy_check y n"
proof (cases "n \<le> 58")
  case True
  then show ?thesis using assms doy_common_2 [of y n] by simp
next
  case before: False
  then have lo: "59 \<le> n" by simp
  show ?thesis
  proof (cases "n + 50 < 128")
    case True
    have "(n + 50) div 32 = 3" by (rule div_between) (use assms(2,3) lo True in simp_all)
    then show ?thesis using assms lo True by (simp add: doy_check_def month_day_def Let_def days_in_month_def days_before_month_def)
  next
    case False
    have "(n + 50) div 32 = 4" by (rule div_between) (use assms(2,3) lo False in simp_all)
    then show ?thesis using assms lo False by (simp add: doy_check_def month_day_def Let_def days_in_month_def days_before_month_def)
  qed
qed

lemma doy_common_4: assumes lp: "\<not> is_leap y" and "0 \<le> n" "n \<le> 119" shows "doy_check y n"
proof (cases "n \<le> 89")
  case True
  then show ?thesis using assms doy_common_3 [of y n] by simp
next
  case before: False
  then have lo: "90 \<le> n" by simp
  show ?thesis
  proof (cases "n + 50 < 160")
    case True
    have "(n + 50) div 32 = 4" by (rule div_between) (use assms(2,3) lo True in simp_all)
    then show ?thesis using assms lo True by (simp add: doy_check_def month_day_def Let_def days_in_month_def days_before_month_def)
  next
    case False
    have "(n + 50) div 32 = 5" by (rule div_between) (use assms(2,3) lo False in simp_all)
    then show ?thesis using assms lo False by (simp add: doy_check_def month_day_def Let_def days_in_month_def days_before_month_def)
  qed
qed

lemma doy_common_5: assumes lp: "\<not> is_leap y" and "0 \<le> n" "n \<le> 150" shows "doy_check y n"
proof (cases "n \<le> 119")
  case True
  then show ?thesis using assms doy_common_4 [of y n] by simp
next
  case before: False
  then have lo: "120 \<le> n" by simp
  show ?thesis
  proof (cases "n + 50 < 192")
    case True
    have "(n + 50) div 32 = 5" by (rule div_between) (use assms(2,3) lo True in simp_all)
    then show ?thesis using assms lo True by (simp add: doy_check_def month_day_def Let_def days_in_month_def days_before_month_def)
  next
    case False
    have "(n + 50) div 32 = 6" by (rule div_between) (use assms(2,3) lo False in simp_all)
    then show ?thesis using assms lo False by (simp add: doy_check_def month_day_def Let_def days_in_month_def days_before_month_def)
  qed
qed

lemma doy_common_6: assumes lp: "\<not> is_leap y" and "0 \<le> n" "n \<le> 180" shows "doy_check y n"
proof (cases "n \<le> 150")
  case True
  then show ?thesis using assms doy_common_5 [of y n] by simp
next
  case before: False
  then have lo: "151 \<le> n" by simp
  show ?thesis
  proof (cases "n + 50 < 224")
    case True
    have "(n + 50) div 32 = 6" by (rule div_between) (use assms(2,3) lo True in simp_all)
    then show ?thesis using assms lo True by (simp add: doy_check_def month_day_def Let_def days_in_month_def days_before_month_def)
  next
    case False
    have "(n + 50) div 32 = 7" by (rule div_between) (use assms(2,3) lo False in simp_all)
    then show ?thesis using assms lo False by (simp add: doy_check_def month_day_def Let_def days_in_month_def days_before_month_def)
  qed
qed

lemma doy_common_7: assumes lp: "\<not> is_leap y" and "0 \<le> n" "n \<le> 211" shows "doy_check y n"
proof (cases "n \<le> 180")
  case True
  then show ?thesis using assms doy_common_6 [of y n] by simp
next
  case before: False
  then have lo: "181 \<le> n" by simp
  show ?thesis
  proof (cases "n + 50 < 256")
    case True
    have "(n + 50) div 32 = 7" by (rule div_between) (use assms(2,3) lo True in simp_all)
    then show ?thesis using assms lo True by (simp add: doy_check_def month_day_def Let_def days_in_month_def days_before_month_def)
  next
    case False
    have "(n + 50) div 32 = 8" by (rule div_between) (use assms(2,3) lo False in simp_all)
    then show ?thesis using assms lo False by (simp add: doy_check_def month_day_def Let_def days_in_month_def days_before_month_def)
  qed
qed

lemma doy_common_8: assumes lp: "\<not> is_leap y" and "0 \<le> n" "n \<le> 242" shows "doy_check y n"
proof (cases "n \<le> 211")
  case True
  then show ?thesis using assms doy_common_7 [of y n] by simp
next
  case before: False
  then have lo: "212 \<le> n" by simp
  show ?thesis
  proof (cases "n + 50 < 288")
    case True
    have "(n + 50) div 32 = 8" by (rule div_between) (use assms(2,3) lo True in simp_all)
    then show ?thesis using assms lo True by (simp add: doy_check_def month_day_def Let_def days_in_month_def days_before_month_def)
  next
    case False
    have "(n + 50) div 32 = 9" by (rule div_between) (use assms(2,3) lo False in simp_all)
    then show ?thesis using assms lo False by (simp add: doy_check_def month_day_def Let_def days_in_month_def days_before_month_def)
  qed
qed

lemma doy_common_9: assumes lp: "\<not> is_leap y" and "0 \<le> n" "n \<le> 272" shows "doy_check y n"
proof (cases "n \<le> 242")
  case True
  then show ?thesis using assms doy_common_8 [of y n] by simp
next
  case before: False
  then have lo: "243 \<le> n" by simp
  show ?thesis
  proof (cases "n + 50 < 320")
    case True
    have "(n + 50) div 32 = 9" by (rule div_between) (use assms(2,3) lo True in simp_all)
    then show ?thesis using assms lo True by (simp add: doy_check_def month_day_def Let_def days_in_month_def days_before_month_def)
  next
    case False
    have "(n + 50) div 32 = 10" by (rule div_between) (use assms(2,3) lo False in simp_all)
    then show ?thesis using assms lo False by (simp add: doy_check_def month_day_def Let_def days_in_month_def days_before_month_def)
  qed
qed

lemma doy_common_10: assumes lp: "\<not> is_leap y" and "0 \<le> n" "n \<le> 303" shows "doy_check y n"
proof (cases "n \<le> 272")
  case True
  then show ?thesis using assms doy_common_9 [of y n] by simp
next
  case before: False
  then have lo: "273 \<le> n" by simp
  show ?thesis
  proof (cases "n + 50 < 352")
    case True
    have "(n + 50) div 32 = 10" by (rule div_between) (use assms(2,3) lo True in simp_all)
    then show ?thesis using assms lo True by (simp add: doy_check_def month_day_def Let_def days_in_month_def days_before_month_def)
  next
    case False
    have "(n + 50) div 32 = 11" by (rule div_between) (use assms(2,3) lo False in simp_all)
    then show ?thesis using assms lo False by (simp add: doy_check_def month_day_def Let_def days_in_month_def days_before_month_def)
  qed
qed

lemma doy_common_11: assumes lp: "\<not> is_leap y" and "0 \<le> n" "n \<le> 333" shows "doy_check y n"
proof (cases "n \<le> 303")
  case True
  then show ?thesis using assms doy_common_10 [of y n] by simp
next
  case before: False
  then have lo: "304 \<le> n" by simp
  show ?thesis
  proof (cases "n + 50 < 384")
    case True
    have "(n + 50) div 32 = 11" by (rule div_between) (use assms(2,3) lo True in simp_all)
    then show ?thesis using assms lo True by (simp add: doy_check_def month_day_def Let_def days_in_month_def days_before_month_def)
  next
    case False
    have "(n + 50) div 32 = 12" by (rule div_between) (use assms(2,3) lo False in simp_all)
    then show ?thesis using assms lo False by (simp add: doy_check_def month_day_def Let_def days_in_month_def days_before_month_def)
  qed
qed

lemma doy_common_12: assumes lp: "\<not> is_leap y" and "0 \<le> n" "n \<le> 364" shows "doy_check y n"
proof (cases "n \<le> 333")
  case True
  then show ?thesis using assms doy_common_11 [of y n] by simp
next
  case before: False
  then have lo: "334 \<le> n" by simp
  show ?thesis
  proof (cases "n + 50 < 416")
    case True
    have "(n + 50) div 32 = 12" by (rule div_between) (use assms(2,3) lo True in simp_all)
    then show ?thesis using assms lo True by (simp add: doy_check_def month_day_def Let_def days_in_month_def days_before_month_def)
  next
    case False
    have "(n + 50) div 32 = 13" by (rule div_between) (use assms(2,3) lo False in simp_all)
    then show ?thesis using assms lo False by (simp add: doy_check_def month_day_def Let_def days_in_month_def days_before_month_def)
  qed
qed

lemma doy_ok: assumes "0 \<le> n" "n < 365" shows "doy_check y n"
  using assms doy_leap_12 [of y n] doy_common_12 [of y n] by (cases "is_leap y") simp_all

lemma dby_decomp:
  assumes "0 \<le> b" "b \<le> 3" "0 \<le> c" "c \<le> 24" "0 \<le> e" "e \<le> 3"
  shows "days_before_year (400 * a + 100 * b + 4 * c + e + 1)
           = 146097 * a + 36524 * b + 1461 * c + 365 * e"
proof -
  let ?p = "400 * a + 100 * b + 4 * c + e"
  have d4: "?p div 4 = 100 * a + 25 * b + c"
    by (rule div_eqI [where r = e]) (use assms in simp_all)
  have d100: "?p div 100 = 4 * a + b"
    by (rule div_eqI [where r = "4 * c + e"]) (use assms in simp_all)
  have d400: "?p div 400 = a"
    by (rule div_eqI [where r = "100 * b + 4 * c + e"]) (use assms in simp_all)
  show ?thesis unfolding days_before_year_def Let_def
    using d4 d100 d400 by simp
qed

lemma leap_decomp:
  assumes "0 \<le> b" "b \<le> 3" "0 \<le> c" "c \<le> 24" "0 \<le> e" "e \<le> 3"
  shows "is_leap (400 * a + 100 * b + 4 * c + e + 1) = (e = 3 \<and> (c \<noteq> 24 \<or> b = 3))"
proof -
  let ?y = "400 * a + 100 * b + 4 * c + e + 1"
  have m4: "(?y mod 4 = 0) = (e = 3)"
  proof (cases "e = 3")
    case True
    have "?y mod 4 = 0"
      by (rule mod_eqI [where q = "100 * a + 25 * b + c + 1"]) (use True in simp_all)
    with True show ?thesis by simp
  next
    case False
    have "?y mod 4 = e + 1"
      by (rule mod_eqI [where q = "100 * a + 25 * b + c"]) (use False assms in simp_all)
    with False assms show ?thesis by simp
  qed
  have m100: "(?y mod 100 = 0) = (c = 24 \<and> e = 3)"
  proof (cases "c = 24 \<and> e = 3")
    case True
    have "?y mod 100 = 0"
      by (rule mod_eqI [where q = "4 * a + b + 1"]) (use True in simp_all)
    with True show ?thesis by simp
  next
    case False
    have lt: "4 * c + e + 1 < 100" using False assms by arith
    have "?y mod 100 = 4 * c + e + 1"
      by (rule mod_eqI [where q = "4 * a + b"]) (use lt assms in simp_all)
    with False assms show ?thesis by auto
  qed
  have m400: "(?y mod 400 = 0) = (b = 3 \<and> c = 24 \<and> e = 3)"
  proof (cases "b = 3 \<and> c = 24 \<and> e = 3")
    case True
    have "?y mod 400 = 0"
      by (rule mod_eqI [where q = "a + 1"]) (use True in simp_all)
    with True show ?thesis by simp
  next
    case False
    have lt: "100 * b + 4 * c + e + 1 < 400" using False assms by arith
    have "?y mod 400 = 100 * b + 4 * c + e + 1"
      by (rule mod_eqI [where q = a]) (use lt assms in simp_all)
    with False assms show ?thesis by auto
  qed
  show ?thesis unfolding is_leap_def m4 m100 m400 by blast
qed

lemma ord_to_ymd_correct:
  assumes "1 \<le> k" "k \<le> MAXORDINAL"
  shows "valid_date (ord_to_ymd k) \<and> ymd_to_ord (ord_to_ymd k) = k"
proof -
  define a where "a = (k - 1) div 146097"
  define r400 where "r400 = (k - 1) mod 146097"
  define b where "b = r400 div 36524"
  define r100 where "r100 = r400 mod 36524"
  define c where "c = r100 div 1461"
  define r4 where "r4 = r100 mod 1461"
  define e where "e = r4 div 365"
  define n where "n = r4 mod 365"
  have k_eq: "k - 1 = 146097 * a + r400" and r400: "0 \<le> r400" "r400 < 146097"
    by (simp_all add: a_def r400_def)
  have r400_eq: "r400 = 36524 * b + r100" and r100: "0 \<le> r100" "r100 < 36524"
    by (simp_all add: b_def r100_def)
  have r100_eq: "r100 = 1461 * c + r4" and r4: "0 \<le> r4" "r4 < 1461"
    by (simp_all add: c_def r4_def)
  have r4_eq: "r4 = 365 * e + n" and n: "0 \<le> n" "n < 365"
    by (simp_all add: e_def n_def)
  have a0: "0 \<le> a" using assms(1) by (simp add: a_def pos_imp_zdiv_nonneg_iff)
  have b0: "0 \<le> b" using r400 by (simp add: b_def pos_imp_zdiv_nonneg_iff)
  have c0: "0 \<le> c" using r100 by (simp add: c_def pos_imp_zdiv_nonneg_iff)
  have e0: "0 \<le> e" using r4 by (simp add: e_def pos_imp_zdiv_nonneg_iff)
  have b4: "b \<le> 4" using r400 r400_eq r100 by linarith
  have c24: "c \<le> 24" using r100 r100_eq r4 by linarith
  have e4: "e \<le> 4" using r4 r4_eq n by linarith
  have k_all: "k = 146097 * a + 36524 * b + 1461 * c + 365 * e + n + 1"
    using k_eq r400_eq r100_eq r4_eq by linarith
  have a24: "a \<le> 24" using assms(2) k_all b0 c0 e0 n by (simp add: MAXORDINAL_def)
  define Y where "Y = a * 400 + 1 + b * 100 + c * 4 + e"
  define L where "L = (e = 3 \<and> (c \<noteq> 24 \<or> b = 3))"
  have unfold: "ord_to_ymd k =
      (if e = 4 \<or> b = 4 then Date (Y - 1) 12 31
       else case month_day Y L n of (m, d) \<Rightarrow> Date Y m d)"
    unfolding ord_to_ymd_def Let_def a_def r400_def b_def r100_def c_def r4_def e_def n_def
      Y_def L_def by simp
  show ?thesis
  proof (cases "b = 4")
    case True
    have "r100 = 0" using True r400 r400_eq r100 by linarith
    then have z: "c = 0" "e = 0" "n = 0" using r100_eq r4_eq c0 e0 r4 n by linarith+
    have Yv: "Y - 1 = 400 * a + 100 * 3 + 4 * 24 + 3 + 1" using True z by (simp add: Y_def)
    have dby: "days_before_year (Y - 1) = 146097 * a + 36524 * 3 + 1461 * 24 + 365 * 3"
      unfolding Yv by (rule dby_decomp) simp_all
    have lp: "is_leap (Y - 1)" unfolding Yv by (subst leap_decomp) simp_all
    have "ord_to_ymd k = Date (Y - 1) 12 31" using unfold True by simp
    moreover have "a \<le> 23" using assms(2) k_all True z by (simp add: MAXORDINAL_def)
    then have "valid_date (Date (Y - 1) 12 31)"
      using a0 Yv by (simp add: valid_date_def days_in_month_def)
    moreover have "ymd_to_ord (Date (Y - 1) 12 31) = k"
      using dby lp k_all True z by (simp add: ymd_to_ord_def days_before_month_def)
    ultimately show ?thesis by simp
  next
    case bn4: False
    then have b3: "b \<le> 3" using b4 by simp
    show ?thesis
    proof (cases "e = 4")
      case True
      have n0: "n = 0" using True r4 r4_eq n by linarith
      have c23: "c \<le> 23" using True r100 r100_eq r4_eq n0 by linarith
      have Yv: "Y - 1 = 400 * a + 100 * b + 4 * c + 3 + 1" using True by (simp add: Y_def)
      have dby: "days_before_year (Y - 1) = 146097 * a + 36524 * b + 1461 * c + 365 * 3"
        unfolding Yv by (rule dby_decomp) (use b0 b3 c0 c23 in simp_all)
      have lp: "is_leap (Y - 1)"
        unfolding Yv by (subst leap_decomp) (use b0 b3 c0 c23 in simp_all)
      have "ord_to_ymd k = Date (Y - 1) 12 31" using unfold True by simp
      moreover have "valid_date (Date (Y - 1) 12 31)"
        using a0 a24 b0 b3 c0 c23 Yv by (simp add: valid_date_def days_in_month_def)
      moreover have "ymd_to_ord (Date (Y - 1) 12 31) = k"
        using dby lp k_all True n0 by (simp add: ymd_to_ord_def days_before_month_def)
      ultimately show ?thesis by simp
    next
      case en4: False
      then have e3: "e \<le> 3" using e4 by simp
      have Yv: "Y = 400 * a + 100 * b + 4 * c + e + 1" by (simp add: Y_def)
      have dby: "days_before_year Y = 146097 * a + 36524 * b + 1461 * c + 365 * e"
        unfolding Yv by (rule dby_decomp) (use b0 b3 c0 c24 e0 e3 in simp_all)
      have lp: "is_leap Y = L"
        unfolding Yv L_def by (rule leap_decomp) (use b0 b3 c0 c24 e0 e3 in simp_all)
      have Y1: "1 \<le> Y" using a0 b0 c0 e0 Yv by simp
      have Y9999: "Y \<le> 9999"
        using assms(2) k_all Yv b0 b3 c0 c24 e0 e3 n by (simp add: MAXORDINAL_def)
      have chk: "doy_check Y n" using n by (rule doy_ok)
      obtain mm dd where md: "month_day Y (is_leap Y) n = (mm, dd)"
        by (cases "month_day Y (is_leap Y) n")
      have res: "ord_to_ymd k = Date Y mm dd"
        using unfold bn4 en4 lp md by simp
      have mm: "1 \<le> mm" "mm \<le> 12" and dd: "1 \<le> dd" "dd \<le> days_in_month Y mm"
        and sum: "days_before_month Y mm + dd = n + 1"
        using chk md by (simp_all add: doy_check_def)
      have "valid_date (Date Y mm dd)"
        using mm dd Y1 Y9999 by (simp add: valid_date_def)
      moreover have "ymd_to_ord (Date Y mm dd) = k"
        using sum dby k_all by (simp add: ymd_to_ord_def)
      ultimately show ?thesis using res by simp
    qed
  qed
qed

lemma month_cases:
  fixes m :: int
  assumes "1 \<le> m" "m \<le> 12"
  shows "m = 1 \<or> m = 2 \<or> m = 3 \<or> m = 4 \<or> m = 5 \<or> m = 6 \<or> m = 7 \<or> m = 8
         \<or> m = 9 \<or> m = 10 \<or> m = 11 \<or> m = 12"
  using assms by presburger

lemma dbm_succ:
  assumes "1 \<le> m" "m \<le> 11"
  shows "days_before_month y (m + 1) = days_before_month y m + days_in_month y m"
proof -
  have "m = 1 \<or> m = 2 \<or> m = 3 \<or> m = 4 \<or> m = 5 \<or> m = 6 \<or> m = 7 \<or> m = 8
         \<or> m = 9 \<or> m = 10 \<or> m = 11 \<or> m = 12"
    using assms by (intro month_cases) simp_all
  then show ?thesis using assms(2)
    by (elim disjE) (simp_all add: days_before_month_def days_in_month_def)
qed

lemma days_in_month_bounds:
  assumes "1 \<le> m" "m \<le> 12"
  shows "28 \<le> days_in_month y m \<and> days_in_month y m \<le> 31"
proof -
  have "m = 1 \<or> m = 2 \<or> m = 3 \<or> m = 4 \<or> m = 5 \<or> m = 6 \<or> m = 7 \<or> m = 8
         \<or> m = 9 \<or> m = 10 \<or> m = 11 \<or> m = 12"
    using assms by (rule month_cases)
  then show ?thesis
    by (elim disjE) (simp_all add: days_in_month_def)
qed

lemma div_step:
  fixes y k :: int
  assumes "0 < k"
  shows "y div k = (y - 1) div k + (if y mod k = 0 then 1 else 0)"
proof -
  define q where "q = (y - 1) div k"
  define r where "r = (y - 1) mod k"
  have eq: "y - 1 = k * q + r" and r: "0 \<le> r" "r < k"
    using assms by (simp_all add: q_def r_def)
  show ?thesis
  proof (cases "r = k - 1")
    case True
    have "y div k = q + 1" by (rule div_eqI [where r = 0]) (use eq True assms in \<open>simp_all add: algebra_simps\<close>)
    moreover have "y mod k = 0" by (rule mod_eqI [where q = "q + 1"]) (use eq True assms in \<open>simp_all add: algebra_simps\<close>)
    ultimately show ?thesis by (simp add: q_def)
  next
    case False
    have "y div k = q" by (rule div_eqI [where r = "r + 1"]) (use eq False r in simp_all)
    moreover have "y mod k = r + 1" by (rule mod_eqI [where q = q]) (use eq False r in simp_all)
    ultimately show ?thesis using r by (simp add: q_def)
  qed
qed

lemma dvd4: fixes y :: int assumes "y mod 100 = 0" shows "y mod 4 = 0"
proof -
  have "100 dvd y" using assms by (simp add: dvd_eq_mod_eq_0)
  moreover have "(4::int) dvd 100" by simp
  ultimately have "4 dvd y" by (rule dvd_trans [rotated])
  then show ?thesis by simp
qed
lemma dvd100: fixes y :: int assumes "y mod 400 = 0" shows "y mod 100 = 0"
proof -
  have "400 dvd y" using assms by (simp add: dvd_eq_mod_eq_0)
  moreover have "(100::int) dvd 400" by simp
  ultimately have "100 dvd y" by (rule dvd_trans [rotated])
  then show ?thesis by simp
qed
lemma dby_1: "days_before_year 1 = 0"
  by (simp add: days_before_year_def)

lemma dby_10000: "days_before_year 10000 = 3652059"
  by (simp add: days_before_year_def)

lemma dby_succ:
  "days_before_year (y + 1) = days_before_year y + (if is_leap y then 366 else 365)"
proof -
  define q4 where "q4 = (y - 1) div 4"
  define q100 where "q100 = (y - 1) div 100"
  define q400 where "q400 = (y - 1) div 400"
  have d4: "y div 4 = q4 + (if y mod 4 = 0 then 1 else 0)"
    unfolding q4_def by (rule div_step) simp
  have d100: "y div 100 = q100 + (if y mod 100 = 0 then 1 else 0)"
    unfolding q100_def by (rule div_step) simp
  have d400: "y div 400 = q400 + (if y mod 400 = 0 then 1 else 0)"
    unfolding q400_def by (rule div_step) simp
  have l: "days_before_year (y + 1) = y * 365 + y div 4 - y div 100 + y div 400"
    by (simp add: days_before_year_def Let_def)
  have r: "days_before_year y = (y - 1) * 365 + q4 - q100 + q400"
    by (simp add: days_before_year_def Let_def q4_def q100_def q400_def)
  show ?thesis
  proof (cases "y mod 4 = 0")
    case m4: True
    show ?thesis
    proof (cases "y mod 100 = 0")
      case m100: True
      show ?thesis
      proof (cases "y mod 400 = 0")
        case True
        then show ?thesis using m4 m100 l r d4 d100 d400 by (simp add: is_leap_def)
      next
        case False
        then show ?thesis using m4 m100 l r d4 d100 d400 by (simp add: is_leap_def)
      qed
    next
      case False
      then have "y mod 400 \<noteq> 0" using dvd100 [of y] by auto
      then show ?thesis using m4 False l r d4 d100 d400 by (simp add: is_leap_def)
    qed
  next
    case False
    then have n100: "y mod 100 \<noteq> 0" using dvd4 [of y] by auto
    then have "y mod 400 \<noteq> 0" using dvd100 [of y] by auto
    then show ?thesis using False n100 l r d4 d100 d400 by (simp add: is_leap_def)
  qed
qed

lemma dby_mono:
  assumes "y \<le> z"
  shows "days_before_year y + 365 * (z - y) \<le> days_before_year z"
  using assms
proof (induction z rule: int_ge_induct)
  case base
  then show ?case by simp
next
  case (step i)
  have "days_before_year i + 365 \<le> days_before_year (i + 1)" by (simp add: dby_succ)
  with step show ?case by (simp add: algebra_simps)
qed

lemma ord_Date:
  "ymd_to_ord (Date y m d) = days_before_year y + days_before_month y m + d"
  by (simp add: ymd_to_ord_def)

lemma dbm_1: "days_before_month y 1 = 0"
  by (simp add: days_before_month_def)

lemma dbm_12: "days_before_month y 12 + 31 = (if is_leap y then 366 else 365)"
  by (simp add: days_before_month_def)

lemma dim_12: "days_in_month y 12 = 31"
  by (simp add: days_in_month_def)

text \<open>A date that \<open>normalize_date\<close> returns is a date, the given number of days away.\<close>

lemma normalize_date_ord:
  assumes m: "1 \<le> m" "m \<le> 12" and r: "normalize_date y m d = Inr E"
  shows "valid_date E \<and> ymd_to_ord E = ymd_to_ord (Date y m d)"
proof -
  let ?dim = "days_in_month y m"
  consider (c_keep) "1 \<le> d \<and> d \<le> ?dim"
    | (c_prev) "\<not> (1 \<le> d \<and> d \<le> ?dim)" "d = 0"
    | (c_next) "\<not> (1 \<le> d \<and> d \<le> ?dim)" "d \<noteq> 0" "d = ?dim + 1"
    | (c_far) "\<not> (1 \<le> d \<and> d \<le> ?dim)" "d \<noteq> 0" "d \<noteq> ?dim + 1"
    by blast
  then show ?thesis
  proof cases
    case c_keep
    then have "E = Date y m d" "1 \<le> y" "y \<le> 9999"
      using r by (auto simp: normalize_date_def Let_def split: if_splits)
    then show ?thesis using c_keep m by (simp add: valid_date_def)
  next
    case c_prev
    show ?thesis
    proof (cases "m = 1")
      case True
      then have E: "E = Date (y - 1) 12 31" and y: "1 \<le> y - 1" "y - 1 \<le> 9999"
        using r c_prev by (auto simp: normalize_date_def Let_def split: if_splits)
      have "days_before_year y = days_before_year (y - 1) + (if is_leap (y - 1) then 366 else 365)"
        using dby_succ [of "y - 1"] by simp
      then show ?thesis using E y True c_prev dbm_12 [of "y - 1"]
        by (simp add: valid_date_def dim_12 ord_Date dbm_1)
    next
      case False
      then have E: "E = Date y (m - 1) (days_in_month y (m - 1))" and y: "1 \<le> y" "y \<le> 9999"
        using r c_prev m by (auto simp: normalize_date_def Let_def split: if_splits)
      have "days_before_month y (m - 1 + 1) = days_before_month y (m - 1) + days_in_month y (m - 1)"
        by (rule dbm_succ) (use m False in simp_all)
      moreover have "28 \<le> days_in_month y (m - 1)"
        using days_in_month_bounds [of "m - 1" y] m False by simp
      ultimately show ?thesis using E y c_prev m False
        by (simp add: valid_date_def ord_Date)
    qed
  next
    case c_next
    show ?thesis
    proof (cases "m = 12")
      case True
      then have E: "E = Date (y + 1) 1 1" and y: "1 \<le> y + 1" "y + 1 \<le> 9999"
        using r c_next by (auto simp: normalize_date_def Let_def split: if_splits)
      show ?thesis using E y True c_next dby_succ [of y] dbm_12 [of y]
        by (simp add: valid_date_def days_in_month_def ord_Date dbm_1)
    next
      case False
      then have E: "E = Date y (m + 1) 1" and y: "1 \<le> y" "y \<le> 9999"
        using r c_next m by (auto simp: normalize_date_def Let_def split: if_splits)
      have "days_before_month y (m + 1) = days_before_month y m + days_in_month y m"
        by (rule dbm_succ) (use m False in simp_all)
      moreover have "28 \<le> days_in_month y (m + 1)"
        using days_in_month_bounds [of "m + 1" y] m False by simp
      ultimately show ?thesis using E y c_next m False
        by (simp add: valid_date_def ord_Date)
    qed
  next
    case c_far
    let ?k = "ymd_to_ord (Date y m 1) + d - 1"
    have k: "1 \<le> ?k" "?k \<le> MAXORDINAL" and E: "E = ord_to_ymd ?k"
      using r c_far by (auto simp: normalize_date_def Let_def split: if_splits)
    have "valid_date (ord_to_ymd ?k) \<and> ymd_to_ord (ord_to_ymd ?k) = ?k"
      using k by (rule ord_to_ymd_correct)
    then show ?thesis using E by (simp add: ord_Date)
  qed
qed

lemma add_days_ord:
  assumes "valid_date D" "add_days D n = Inr E"
  shows "valid_date E \<and> ymd_to_ord E = ymd_to_ord D + n"
proof -
  have "valid_date E \<and> ymd_to_ord E = ymd_to_ord (Date (year D) (month D) (day D + n))"
    by (rule normalize_date_ord) (use assms in \<open>simp_all add: valid_date_def add_days_def\<close>)
  then show ?thesis by (simp add: ymd_to_ord_def)
qed

lemma dbm_range:
  assumes "1 \<le> m" "m \<le> 12"
  shows "0 \<le> days_before_month y m
         \<and> days_before_month y m + days_in_month y m \<le> (if is_leap y then 366 else 365)"
proof -
  have "m = 1 \<or> m = 2 \<or> m = 3 \<or> m = 4 \<or> m = 5 \<or> m = 6 \<or> m = 7 \<or> m = 8
         \<or> m = 9 \<or> m = 10 \<or> m = 11 \<or> m = 12"
    using assms by (rule month_cases)
  then show ?thesis
    by (elim disjE) (simp_all add: days_before_month_def days_in_month_def)
qed

lemma ord_bounds:
  assumes "valid_date D"
  shows "1 \<le> ymd_to_ord D \<and> ymd_to_ord D \<le> MAXORDINAL"
proof -
  have y: "1 \<le> year D" "year D \<le> 9999" and m: "1 \<le> month D" "month D \<le> 12"
    and d: "1 \<le> day D" "day D \<le> days_in_month (year D) (month D)"
    using assms by (simp_all add: valid_date_def)
  have lo: "0 \<le> days_before_year (year D)"
    using dby_mono [of 1 "year D"] y by (simp add: dby_1)
  have "days_before_year (year D + 1) + 365 * (10000 - (year D + 1)) \<le> days_before_year 10000"
    by (rule dby_mono) (use y in simp)
  then have hi: "days_before_year (year D + 1) \<le> MAXORDINAL"
    using y by (simp add: dby_10000 MAXORDINAL_def)
  have "ymd_to_ord D \<le> days_before_year (year D + 1)"
    using dbm_range [OF m, of "year D"] d by (simp add: ymd_to_ord_def dby_succ)
  then show ?thesis using lo hi dbm_range [OF m, of "year D"] d by (simp add: ymd_to_ord_def)
qed

lemma normalize_date_ok:
  assumes m: "1 \<le> m" "m \<le> 12" and y: "1 \<le> y" "y \<le> 9999"
    and k: "1 \<le> ymd_to_ord (Date y m d)" "ymd_to_ord (Date y m d) \<le> MAXORDINAL"
  shows "\<exists>E. normalize_date y m d = Inr E"
proof -
  let ?dim = "days_in_month y m"
  consider (c_keep) "1 \<le> d \<and> d \<le> ?dim"
    | (c_prev) "\<not> (1 \<le> d \<and> d \<le> ?dim)" "d = 0"
    | (c_next) "\<not> (1 \<le> d \<and> d \<le> ?dim)" "d \<noteq> 0" "d = ?dim + 1"
    | (c_far) "\<not> (1 \<le> d \<and> d \<le> ?dim)" "d \<noteq> 0" "d \<noteq> ?dim + 1"
    by blast
  then show ?thesis
  proof cases
    case c_keep
    then show ?thesis using y by (simp add: normalize_date_def)
  next
    case c_prev
    have "1 < y" if "m = 1"
    proof -
      have "y \<noteq> 1" using k(1) that c_prev by (auto simp: ord_Date dbm_1 dby_1)
      then show ?thesis using y by simp
    qed
    then show ?thesis using c_prev y m by (auto simp: normalize_date_def Let_def)
  next
    case c_next
    have "y < 9999" if "m = 12"
    proof -
      have "y \<noteq> 9999"
      proof
        assume "y = 9999"
        then have "ymd_to_ord (Date y m d) = 3652060"
          using that c_next by (simp add: ord_Date days_before_year_def days_before_month_def
                                   days_in_month_def is_leap_def)
        then show False using k(2) by (simp add: MAXORDINAL_def)
      qed
      then show ?thesis using y by simp
    qed
    then show ?thesis using c_next y m by (auto simp: normalize_date_def Let_def)
  next
    case c_far
    let ?k = "ymd_to_ord (Date y m 1) + d - 1"
    have eq: "?k = ymd_to_ord (Date y m d)" by (simp add: ord_Date)
    have "valid_date (ord_to_ymd ?k)"
      using ord_to_ymd_correct [of ?k] k eq by simp
    then show ?thesis using c_far k eq
      by (simp add: normalize_date_def Let_def valid_date_def)
  qed
qed

lemma add_days_ok:
  assumes "valid_date D" "1 \<le> ymd_to_ord D + n" "ymd_to_ord D + n \<le> MAXORDINAL"
  shows "\<exists>E. add_days D n = Inr E \<and> valid_date E \<and> ymd_to_ord E = ymd_to_ord D + n"
proof -
  have eq: "ymd_to_ord (Date (year D) (month D) (day D + n)) = ymd_to_ord D + n"
    by (simp add: ymd_to_ord_def)
  have "\<exists>E. normalize_date (year D) (month D) (day D + n) = Inr E"
    by (rule normalize_date_ok) (use assms eq in \<open>simp_all add: valid_date_def\<close>)
  then obtain E where E: "add_days D n = Inr E" by (auto simp: add_days_def)
  with assms(1) show ?thesis using add_days_ord by blast
qed

section \<open>Evaluation rules\<close>

lemmas date_eval = add_days_def normalize_date_def days_in_month_def is_leap_def ymd_to_ord_def
  days_before_year_def days_before_month_def MAXORDINAL_def ord_to_ymd_def days_between_def
  valid_date_def month_day_def

lemmas parse_eval = strptime_ymd_def parse_year_def parse_month_def parse_day_def digit_of_def

lemmas fmt_eval = isoformat_def strftime_ymd_def pad2_def pad4_def digit_char_def

lemmas growth_eval = growth_monitoring_logic_def required_fields_def has_key_def
  try_except_ValueError_def andthen_def dict_item_def Let_def str_lower_def lower_char_def
  wfa_interpretation_def hfa_interpretation_def wfh_interpretation_def bmi_like_of_def
  create_growth_observation_def create_codeable_concept_def create_fhir_reference_def
  dict_get_def plain_body_def observation_codes_def list_items_def interpretation_code_def
  growth_monitoring_http_def wfh_interpretation_http_def create_growth_observation_http_def
  create_fhir_reference_http_def overall_normal_http_def FHIR_RESOURCES_AVAILABLE_def

section \<open>Risk analysis of an antenatal visit\<close>

lemma bp_check_logic_finite:
  assumes "finite_number s" "finite_number d" "num_val s \<noteq> 0" "num_val d \<noteq> 0"
  shows "bp_check_logic E s d = Inr (140 \<le> num_val s \<or> 90 \<le> num_val d)"
proof -
  have int_ge: "py_int E v = Inr (if 0 \<le> num_val v then \<lfloor>num_val v\<rfloor> else \<lceil>num_val v\<rceil>)"
    if "finite_number v" for v
    using that by (cases v rule: finite_number.cases) simp_all
  have ge: "(n \<le> (if 0 \<le> r then \<lfloor>r\<rfloor> else \<lceil>r\<rceil>)) = (of_int n \<le> r)" if "0 < n" for n :: int and r :: real
  proof (cases "0 \<le> r")
    case True
    then show ?thesis by (simp add: le_floor_iff)
  next
    case False
    then have c: "\<lceil>r\<rceil> \<le> 0" by (simp add: ceiling_le_iff)
    have "\<not> n \<le> \<lceil>r\<rceil>" using c that by linarith
    moreover have "\<not> of_int n \<le> r" using False that by simp
    ultimately show ?thesis using False by simp
  qed
  have "truthy s" using assms(1,3) by (cases s rule: finite_number.cases) simp_all
  moreover have "truthy d" using assms(2,4) by (cases d rule: finite_number.cases) simp_all
  ultimately have t: "truthy s" "truthy d" by simp_all
  show ?thesis
    using t ge [of 140 "num_val s"] ge [of 90 "num_val d"]
    by (simp add: bp_check_logic_def int_ge [OF assms(1)] int_ge [OF assms(2)] andthen_def)
qed

lemma bp_check_http_finite:
  assumes "finite_number s" "finite_number d" "num_val s \<noteq> 0" "num_val d \<noteq> 0"
  shows "bp_check_http s d = Inr (140 \<le> num_val s \<or> 90 \<le> num_val d)"
proof -
  have ge: "py_ge_int v n = Inr (of_int n \<le> num_val v)" if "finite_number v" for v n
    using that by (cases v rule: finite_number.cases) simp_all
  have "truthy s" using assms(1,3) by (cases s rule: finite_number.cases) simp_all
  moreover have "truthy d" using assms(2,4) by (cases d rule: finite_number.cases) simp_all
  ultimately have t: "truthy s" "truthy d" by simp_all
  show ?thesis
    using t by (simp add: bp_check_http_def ge [OF assms(1)] ge [OF assms(2)] andthen_def)
qed

lemma finish_analysis_bp:
  "risks_with_code ''ANC_HIGH_BP'' (finish_analysis bp bleeding) = (if bp then [high_bp_risk] else [])"
  "filter (\<lambda>r. r = PStr high_bp_recommendation) (recommendations (finish_analysis bp bleeding))
     = (if bp then [PStr high_bp_recommendation] else [])"
  by (simp_all add: finish_analysis_def risks_with_code_def risks_def recommendations_def
        list_items_def Let_def high_bp_risk_def bleeding_risk_def no_risk_def
        high_bp_recommendation_def bleeding_recommendation_def routine_recommendation_def)

text \<open>
  Claim C7, as the code has it. When the vitals carry blood-pressure readings that are
  ints or finite floats and both non-zero, and the symptoms entry is absent or a
  dictionary, the logic function and the HTTP view return the same analysis: it holds
  exactly one
  \<open>ANC_HIGH_BP\<close> entry, of high severity, and its recommendation once, when the
  systolic reading is at least 140 or the diastolic reading at least 90, and no such
  entry and no such recommendation otherwise.
\<close>

theorem C7_high_bp_flag:
  assumes "map_of data ''vitals'' = Some (PDict vitals)"
    and "map_of vitals ''bp_systolic'' = Some s" and "map_of vitals ''bp_diastolic'' = Some d"
    and "finite_number s" and "finite_number d" and "num_val s \<noteq> 0" and "num_val d \<noteq> 0"
    and "is_dict (dict_get data ''symptoms'' (PDict []))"
  shows "\<exists>body. analyze_anc_visit_data_logic E data = Inr (Plain body)
           \<and> analyze_anc_visit_data_http E data = Inr (Plain body)
           \<and> risks_with_code ''ANC_HIGH_BP'' body
               = (if 140 \<le> num_val s \<or> 90 \<le> num_val d then [high_bp_risk] else [])
           \<and> filter (\<lambda>r. r = PStr high_bp_recommendation) (recommendations body)
               = (if 140 \<le> num_val s \<or> 90 \<le> num_val d then [PStr high_bp_recommendation]
                  else [])
           \<and> at_path high_bp_risk [''severity''] = Some (PStr ''high'')"
proof -
  obtain sy where sy: "dict_get data ''symptoms'' (PDict []) = PDict sy"
    using assms(8) by (cases "dict_get data ''symptoms'' (PDict [])") simp_all
  let ?bp = "140 \<le> num_val s \<or> 90 \<le> num_val d"
  let ?body = "finish_analysis ?bp (dict_get sy ''bleeding'' PNone)"
  have v: "dict_get data ''vitals'' (PDict []) = PDict vitals"
    and gs: "dict_get vitals ''bp_systolic'' PNone = s"
    and gd: "dict_get vitals ''bp_diastolic'' PNone = d"
    using assms(1-3) by (simp_all add: dict_get_def)
  have l: "analyze_anc_visit_data_logic E data = Inr (Plain ?body)"
    by (simp add: analyze_anc_visit_data_logic_def v gs gd sy andthen_def
          bp_check_logic_finite [OF assms(4-7)])
  have h: "analyze_anc_visit_data_http E data = Inr (Plain ?body)"
    by (simp add: analyze_anc_visit_data_http_def v gs gd sy andthen_def
          bp_check_http_finite [OF assms(4-7)])
  show ?thesis
    using l h finish_analysis_bp [of ?bp "dict_get sy ''bleeding'' PNone"]
    by (simp add: high_bp_risk_def)
qed

theorem C7_high_bp_flag_witness:
  "\<exists>body. analyze_anc_visit_data_logic demo_env
              [(''vitals'', PDict [(''bp_systolic'', PInt 150), (''bp_diastolic'', PInt 80)])]
            = Inr (Plain body)
         \<and> analyze_anc_visit_data_http demo_env
              [(''vitals'', PDict [(''bp_systolic'', PInt 150), (''bp_diastolic'', PInt 80)])]
            = Inr (Plain body)
         \<and> risks_with_code ''ANC_HIGH_BP'' body = [high_bp_risk]
         \<and> filter (\<lambda>r. r = PStr high_bp_recommendation) (recommendations body)
             = [PStr high_bp_recommendation]
         \<and> at_path high_bp_risk [''severity''] = Some (PStr ''high'')"
  using C7_high_bp_flag [of "[(''vitals'', PDict [(''bp_systolic'', PInt 150), (''bp_diastolic'', PInt 80)])]"
      "[(''bp_systolic'', PInt 150), (''bp_diastolic'', PInt 80)]" "PInt 150" "PInt 80" demo_env]
  by (simp add: dict_get_def)

text \<open>
  Claim C7 as stated fails on a reading of zero: the guard
  \<open>if bp_systolic and bp_diastolic\<close> tests truth values, so a systolic 150 with a
  diastolic 0 raises no flag although 150 is above the threshold.
\<close>

theorem C7_zero_reading_counterexample:
  "map_option (risks_with_code ''ANC_HIGH_BP'')
     (plain_body (analyze_anc_visit_data_logic demo_env
        [(''vitals'', PDict [(''bp_systolic'', PInt 150), (''bp_diastolic'', PInt 0)])]))
   = Some []"
  by (simp add: analyze_anc_visit_data_logic_def dict_get_def andthen_def bp_check_logic_def
        plain_body_def finish_analysis_bp)

text \<open>
  A reading that is not finite separates the two copies, which is why the readings
  above are finite. The logic function converts with \<open>int\<close>: an infinite reading
  (the JSON number \<open>1e400\<close>) raises \<open>OverflowError\<close>, which
  \<open>except ValueError\<close> does not catch, and \<open>nan\<close> raises a \<open>ValueError\<close> that
  is swallowed together with the flag. The view compares the readings as they are.
\<close>

lemma infinite_reading:
  "analyze_anc_visit_data_logic E
     [(''vitals'', PDict [(''bp_systolic'', PFloat PosInf), (''bp_diastolic'', PInt 80)])]
   = Inl OverflowError"
  "map_option (risks_with_code ''ANC_HIGH_BP'')
     (plain_body (analyze_anc_visit_data_http E
        [(''vitals'', PDict [(''bp_systolic'', PFloat PosInf), (''bp_diastolic'', PInt 80)])]))
   = Some [high_bp_risk]"
  by (simp_all add: analyze_anc_visit_data_logic_def analyze_anc_visit_data_http_def
        dict_get_def andthen_def bp_check_logic_def bp_check_http_def plain_body_def
        finish_analysis_bp)

lemma nan_reading:
  "map_option (risks_with_code ''ANC_HIGH_BP'')
     (plain_body (analyze_anc_visit_data_logic E
        [(''vitals'', PDict [(''bp_systolic'', PFloat NaN), (''bp_diastolic'', PInt 95)])]))
   = Some []"
  "map_option (risks_with_code ''ANC_HIGH_BP'')
     (plain_body (analyze_anc_visit_data_http E
        [(''vitals'', PDict [(''bp_systolic'', PFloat NaN), (''bp_diastolic'', PInt 95)])]))
   = Some [high_bp_risk]"
  by (simp_all add: analyze_anc_visit_data_logic_def analyze_anc_visit_data_http_def
        dict_get_def andthen_def bp_check_logic_def bp_check_http_def plain_body_def
        finish_analysis_bp)

text \<open>
  Claim C8 at the tool surface. The tool passes \<open>vitals\<close> and \<open>symptoms\<close> on under
  their keys even when the caller left them out, so the defaults \<open>{}\<close> of
  \<open>data.get('vitals', {})\<close> never apply: the value is \<open>None\<close>, and reading
  \<open>bp_systolic\<close> from it raises \<open>AttributeError\<close> instead of yielding the
  single low-severity entry.
\<close>

theorem C8_tool_call_without_vitals:
  "analyze_anc_visit_data_mcp E PNone PNone PNone = Inl AttributeError"
  by (simp add: analyze_anc_visit_data_mcp_def analyze_anc_visit_data_logic_def dict_get_def
        andthen_def)

text \<open>The logic function itself, called with a dictionary that has neither key, does
  return the single synthetic entry and the single routine recommendation.\<close>

lemma analyze_logic_no_keys:
  "analyze_anc_visit_data_logic E [] = Inr (Plain (finish_analysis False PNone))"
  "risks (finish_analysis False PNone) = [no_risk]"
  "recommendations (finish_analysis False PNone) = [PStr routine_recommendation]"
  by (simp_all add: analyze_anc_visit_data_logic_def dict_get_def andthen_def bp_check_logic_def
        finish_analysis_def risks_def recommendations_def list_items_def)

section \<open>Registration\<close>

text \<open>
  Claim C10. When the details of a registration carry no \<open>gender\<close> key, the patient
  of a pregnancy registration has gender \<open>female\<close>, and the patient of a child
  registration has gender \<open>None\<close>.
\<close>

theorem C10_default_gender:
  assumes "map_of details ''gender'' = None"
  shows "(\<exists>body. register_pregnancy_mcp E (PDict details) = Inr (Status body 201)
            \<and> at_path (PDict body) [''patient'', ''gender''] = Some (PStr ''female''))
       \<and> (\<exists>body. register_child_mcp E (PDict details) = Inr (Status body 201)
            \<and> at_path (PDict body) [''patient'', ''gender''] = Some PNone)"
  using assms
  by (simp add: register_pregnancy_mcp_def register_pregnancy_logic_def register_child_mcp_def
        register_child_logic_def has_key_def dict_item_def dict_get_def andthen_def Let_def)

theorem C10_default_gender_witness:
  "map_of [(''given_name'', PStr ''Jane''), (''family_name'', PStr ''Smith'')] ''gender'' = None
   \<and> (\<exists>body. register_pregnancy_mcp demo_env
                 (PDict [(''given_name'', PStr ''Jane''), (''family_name'', PStr ''Smith'')])
               = Inr (Status body 201)
            \<and> at_path (PDict body) [''patient'', ''gender''] = Some (PStr ''female''))"
  using C10_default_gender [of "[(''given_name'', PStr ''Jane''), (''family_name'', PStr ''Smith'')]" demo_env]
  by simp

section \<open>Growth monitoring\<close>

text \<open>
  The overall check of the logic function filters the observations by
  \<open>obs['interpretation'][0].get('code')\<close>. The first interpretation is a codeable
  concept, whose keys are \<open>coding\<close> and \<open>text\<close>: the filter keeps nothing and
  \<open>all\<close> of nothing is true, whatever the codes are.
\<close>

lemma all_codes_normal_created:
  "all_codes_normal
     [create_growth_observation E i1 p m s1 c1 d1 v1 u1 t1 is1 ic1 id1,
      create_growth_observation E i2 p m s2 c2 d2 v2 u2 t2 is2 ic2 id2,
      create_growth_observation E i3 p m s3 c3 d3 v3 u3 t3 is3 ic3 id3] = Inr True"
  by (simp add: create_growth_observation_def create_codeable_concept_def andthen_def
        dict_item_def dict_get_def)

text \<open>
  The overall check of the HTTP view is a disjunction of two \<open>all\<close>; with the
  dictionary fallback the second one runs over nothing, so the disjunction is true
  whenever the first one returns.
\<close>

lemma overall_normal_http_created:
  "overall_normal_http
     [create_growth_observation_http E i1 p m s1 c1 d1 v1 u1 t1 is1 ic1 id1,
      create_growth_observation_http E i2 p m s2 c2 d2 v2 u2 t2 is2 ic2 id2,
      create_growth_observation_http E i3 p m s3 c3 d3 v3 u3 t3 is3 ic3 id3] = Inr True"
  by (simp add: overall_normal_http_def FHIR_RESOURCES_AVAILABLE_def
        create_growth_observation_http_def create_codeable_concept_def andthen_def
        dict_item_def)

lemma underweight_newborn_tool:
  "map_option (\<lambda>b. (observation_codes b, map_of b ''overall_health_status_note''))
     (plain_body (growth_monitoring_mcp demo_env (PStr ''2024-01-01'') (PStr ''2024-01-01'')
        (PFloat (Fin 1)) (PFloat (Fin 50)) (PStr ''male'') (PStr ''p1'')))
   = Some ([Some (PStr ''L''), Some (PStr ''N''), Some (PStr ''N'')],
           Some (PStr overall_normal_text))"
  by (simp add: growth_monitoring_mcp_def growth_eval date_eval parse_eval)

lemma underweight_newborn_http:
  "map_option (\<lambda>b. (observation_codes b, map_of b ''overall_health_status_note''))
     (plain_body (growth_monitoring_http demo_env
        [(''dob'', PStr ''2024-01-01''), (''measurement_date'', PStr ''2024-01-01''),
         (''weight_kg'', PFloat (Fin 1)), (''height_cm'', PFloat (Fin 50)), (''gender'', PStr ''male''),
         (''patient_id'', PStr ''p1'')]))
   = Some ([Some (PStr ''L''), Some (PStr ''N''), Some (PStr ''N'')],
           Some (PStr overall_normal_text))"
  by (simp add: growth_eval date_eval parse_eval)

text \<open>
  Claim C4 at a newborn of 1 kg and 50 cm. The weight-for-age code is \<open>L\<close>, so the
  overall note should ask for further assessment; on the tool surface and on the HTTP
  surface alike it says that growth appears normal.
\<close>

theorem C4_underweight_reported_normal:
  "map_option (\<lambda>b. (observation_codes b, map_of b ''overall_health_status_note''))
     (plain_body (growth_monitoring_mcp demo_env (PStr ''2024-01-01'') (PStr ''2024-01-01'')
        (PFloat (Fin 1)) (PFloat (Fin 50)) (PStr ''male'') (PStr ''p1'')))
   = Some ([Some (PStr ''L''), Some (PStr ''N''), Some (PStr ''N'')],
           Some (PStr overall_normal_text))
   \<and> map_option (\<lambda>b. (observation_codes b, map_of b ''overall_health_status_note''))
     (plain_body (growth_monitoring_http demo_env
        [(''dob'', PStr ''2024-01-01''), (''measurement_date'', PStr ''2024-01-01''),
         (''weight_kg'', PFloat (Fin 1)), (''height_cm'', PFloat (Fin 50)), (''gender'', PStr ''male''),
         (''patient_id'', PStr ''p1'')]))
   = Some ([Some (PStr ''L''), Some (PStr ''N''), Some (PStr ''N'')],
           Some (PStr overall_normal_text))"
  using underweight_newborn_tool underweight_newborn_http by simp

text \<open>
  Claim C5 at the HTTP surface, for a measurement taken the day before the birth. The
  view has no check of the age: it answers with a processed result whose
  \<open>age_in_days\<close> is \<open>-1\<close>, where the logic function answers with status 400.
\<close>

theorem C5_http_negative_age_processed:
  "map_option (\<lambda>b. map_of b ''age_in_days'')
     (plain_body (growth_monitoring_http demo_env
        [(''dob'', PStr ''2024-01-02''), (''measurement_date'', PStr ''2024-01-01''),
         (''weight_kg'', PFloat (Fin 3)), (''height_cm'', PFloat (Fin 50)), (''gender'', PStr ''male''),
         (''patient_id'', PStr ''p1'')]))
   = Some (Some (PInt (- 1)))"
  by (simp add: growth_eval date_eval parse_eval)

lemma negative_age_tool:
  "growth_monitoring_mcp demo_env (PStr ''2024-01-02'') (PStr ''2024-01-01'')
     (PFloat (Fin 3)) (PFloat (Fin 50)) (PStr ''male'') (PStr ''p1'')
   = Inr (Status [(''error'', PStr ''Measurement date cannot be before date of birth.'')] 400)"
  by (simp add: growth_monitoring_mcp_def growth_eval date_eval parse_eval)

text \<open>
  Claim C6 at the HTTP surface, for a height of 0 cm. The view guards the division by
  \<open>height_cm > 0\<close> and leaves the weight-for-height code at \<open>N\<close>; only the logic
  function sets \<open>IE\<close>.
\<close>

theorem C6_http_zero_height_normal:
  "map_option observation_codes
     (plain_body (growth_monitoring_http demo_env
        [(''dob'', PStr ''2024-01-01''), (''measurement_date'', PStr ''2024-03-01''),
         (''weight_kg'', PFloat (Fin 5)), (''height_cm'', PFloat (Fin 0)), (''gender'', PStr ''female''),
         (''patient_id'', PStr ''p1'')]))
   = Some [Some (PStr ''N''), Some (PStr ''L''), Some (PStr ''N'')]"
  by (simp add: growth_eval date_eval parse_eval)

lemma zero_height_tool:
  "map_option observation_codes
     (plain_body (growth_monitoring_mcp demo_env (PStr ''2024-01-01'') (PStr ''2024-03-01'')
        (PFloat (Fin 5)) (PFloat (Fin 0)) (PStr ''female'') (PStr ''p1'')))
   = Some [Some (PStr ''N''), Some (PStr ''L''), Some (PStr ''IE'')]"
  by (simp add: growth_monitoring_mcp_def growth_eval date_eval parse_eval)

lemma wfh_invalid_height:
  assumes "\<not> fl_lt (Fin 0) height_cm"
  shows "wfh_interpretation age_in_months weight_kg height_cm
           = Inr (''Cannot calculate weight-for-height due to invalid height'', ''IE'')"
    and "wfh_interpretation_http age_in_months weight_kg height_cm
           = Inr (''Normal weight-for-height'', ''N'')"
  using assms by (simp_all add: wfh_interpretation_def wfh_interpretation_http_def andthen_def)

section \<open>Due date and visit schedule\<close>

lemma strptime_valid:
  assumes "strptime_ymd E s = Inr D"
  shows "valid_date D" and "s \<noteq> []"
  using assms
  by (auto simp: strptime_ymd_def Let_def split: if_splits option.splits)

text \<open>
  The loop over the visit table succeeds when the day after the last visit is still a
  date: each entry starts the given number of weeks after the first day of the last
  period and carries the description of its row.
\<close>

lemma anc_activities_ok:
  assumes "valid_date lmp"
    and "\<forall>row \<in> set rows. 0 \<le> fst row \<and> ymd_to_ord lmp + 7 * fst row + 1 \<le> MAXORDINAL"
  shows "\<exists>acts ds. anc_activities lmp rows = Inr acts
           \<and> map (\<lambda>row. add_days lmp (7 * fst row)) rows = map Inr ds
           \<and> map ymd_to_ord ds = map (\<lambda>row. ymd_to_ord lmp + 7 * fst row) rows
           \<and> map scheduled_start acts = map (\<lambda>d. Some (PStr (isoformat d))) ds
           \<and> map entry_description acts = map (\<lambda>row. Some (PStr (snd row))) rows"
  using assms(2)
proof (induction rows)
  case Nil
  then show ?case by simp
next
  case (Cons row rest)
  obtain weeks description where row: "row = (weeks, description)" by (cases row)
  have w: "0 \<le> weeks" "ymd_to_ord lmp + 7 * weeks + 1 \<le> MAXORDINAL"
    using Cons.prems row by simp_all
  have lo: "1 \<le> ymd_to_ord lmp" using ord_bounds [OF assms(1)] by simp
  obtain visit_date where v: "add_days lmp (7 * weeks) = Inr visit_date"
    "valid_date visit_date" "ymd_to_ord visit_date = ymd_to_ord lmp + 7 * weeks"
    using add_days_ok [OF assms(1), of "7 * weeks"] w lo by auto
  obtain visit_end where e: "add_days visit_date 1 = Inr visit_end"
    using add_days_ok [OF v(2), of 1] v(3) w lo by auto
  obtain acts ds where ih: "anc_activities lmp rest = Inr acts"
    "map (\<lambda>row. add_days lmp (7 * fst row)) rest = map Inr ds"
    "map ymd_to_ord ds = map (\<lambda>row. ymd_to_ord lmp + 7 * fst row) rest"
    "map scheduled_start acts = map (\<lambda>d. Some (PStr (isoformat d))) ds"
    "map entry_description acts = map (\<lambda>row. Some (PStr (snd row))) rest"
    using Cons.IH Cons.prems by auto
  let ?act = "PDict [(''detail'', PDict
            [(''kind'', PStr ''Appointment''),
             (''code'', create_codeable_concept ''http://snomed.info/sct'' ''390807002''
                          ''Antenatal care (procedure)'' PNone),
             (''status'', PStr ''scheduled''),
             (''description'', PStr description),
             (''scheduledPeriod'', PDict [(''start'', PStr (isoformat visit_date)),
                                          (''end'', PStr (isoformat visit_end))])])]"
  have run: "anc_activities lmp (row # rest) = Inr (?act # acts)"
    using v(1) e ih(1) row by (simp add: andthen_def Let_def)
  have start: "scheduled_start ?act = Some (PStr (isoformat visit_date))"
    by (simp add: scheduled_start_def)
  have descr: "entry_description ?act = Some (PStr description)"
    by (simp add: entry_description_def)
  have "map (\<lambda>row. add_days lmp (7 * fst row)) (row # rest) = map Inr (visit_date # ds)"
    and "map ymd_to_ord (visit_date # ds)
           = map (\<lambda>row. ymd_to_ord lmp + 7 * fst row) (row # rest)"
    and "map scheduled_start (?act # acts)
           = map (\<lambda>d. Some (PStr (isoformat d))) (visit_date # ds)"
    and "map entry_description (?act # acts) = map (\<lambda>row. Some (PStr (snd row))) (row # rest)"
    using v ih row start descr by simp_all
  with run show ?case by blast
qed

lemma visit_weeks_rows: "map fst visit_weeks = [12, 20, 26, 30, 34, 36, 38, 40]"
  by (simp add: visit_weeks_def)


text \<open>The schedule from a last-period date whose last visit window is still inside
  the calendar.\<close>

lemma schedule_from_lmp:
  assumes "strptime_ymd E s = Inr D" and hi: "ymd_to_ord D + 281 \<le> MAXORDINAL"
  shows "\<exists>plan ds. schedule_anc_visits_mcp E (PStr s) PNone pid = Inr (Plain plan)
           \<and> map (\<lambda>w. add_days D (7 * w)) [12, 20, 26, 30, 34, 36, 38, 40] = map Inr ds
           \<and> map ymd_to_ord ds
               = map (\<lambda>w. ymd_to_ord D + 7 * w) [12, 20, 26, 30, 34, 36, 38, 40]
           \<and> length (activities plan) = 8
           \<and> map scheduled_start (activities plan)
               = map (\<lambda>d. Some (PStr (isoformat d))) ds"
proof -
  have D: "valid_date D" and s: "s \<noteq> []" using strptime_valid [OF assms(1)] by simp_all
  have lo: "1 \<le> ymd_to_ord D" using ord_bounds [OF D] by simp
  obtain edd where edd: "add_days D 280 = Inr edd"
    using add_days_ok [OF D, of 280] lo hi by auto
  have rows: "\<forall>row \<in> set visit_weeks.
                0 \<le> fst row \<and> ymd_to_ord D + 7 * fst row + 1 \<le> MAXORDINAL"
    using hi by (simp add: visit_weeks_def)
  obtain acts ds where acts: "anc_activities D visit_weeks = Inr acts"
    "map (\<lambda>row. add_days D (7 * fst row)) visit_weeks = map Inr ds"
    "map ymd_to_ord ds = map (\<lambda>row. ymd_to_ord D + 7 * fst row) visit_weeks"
    "map scheduled_start acts = map (\<lambda>d. Some (PStr (isoformat d))) ds"
    using anc_activities_ok [OF D rows] by blast
  have weeks: "map (\<lambda>row. f (fst row)) visit_weeks = map f [12, 20, 26, 30, 34, 36, 38, 40]"
    for f :: "int \<Rightarrow> 'b"
    by (simp add: visit_weeks_def)
  have len: "length acts = 8"
    using arg_cong [OF acts(4), of length] arg_cong [OF acts(2), of length]
    by (simp add: visit_weeks_def)
  have "\<exists>plan. schedule_anc_visits_mcp E (PStr s) PNone pid = Inr (Plain plan)
          \<and> activities plan = acts"
    using assms(1) s edd acts(1)
    by (simp add: schedule_anc_visits_mcp_def schedule_anc_visits_logic_def dict_get_def
          try_except_ValueError_def andthen_def Let_def activities_def list_items_def)
  then show ?thesis
    using acts(2-4) len weeks [of "\<lambda>w. add_days D (7 * w)"]
      weeks [of "\<lambda>w. ymd_to_ord D + 7 * w"] by auto
qed

text \<open>
  Claim C1, as the code has it. Python's dates end on 9999-12-31, and a sum beyond
  that day raises \<open>OverflowError\<close>. For a last-period date \<open>D\<close> that
  \<open>strptime\<close> accepts: when \<open>D\<close> + 280 days is still a date, \<open>calculate_edd\<close>
  returns that date; when \<open>D\<close> + 281 days is still a date (every visit has a window
  of one day), \<open>schedule_anc_visits\<close> with \<open>lmp_date = D\<close> returns exactly 8 entries,
  which start at \<open>D\<close> + 7 \<open>w\<close> days for \<open>w\<close> = 12, 20, 26, 30, 34, 36, 38, 40, in
  this order.
\<close>

theorem C1_due_date_and_visits:
  assumes "strptime_ymd E s = Inr D"
  shows "(ymd_to_ord D + 280 \<le> MAXORDINAL \<longrightarrow>
            (\<exists>edd body. add_days D 280 = Inr edd \<and> ymd_to_ord edd = ymd_to_ord D + 280
               \<and> calculate_edd_mcp E (PStr s) = Inr (Plain body)
               \<and> map_of body ''estimated_delivery_date'' = Some (PStr (strftime_ymd edd))))
       \<and> (ymd_to_ord D + 281 \<le> MAXORDINAL \<longrightarrow>
            (\<exists>plan ds. schedule_anc_visits_mcp E (PStr s) PNone pid = Inr (Plain plan)
               \<and> map (\<lambda>w. add_days D (7 * w)) [12, 20, 26, 30, 34, 36, 38, 40] = map Inr ds
               \<and> map ymd_to_ord ds
                   = map (\<lambda>w. ymd_to_ord D + 7 * w) [12, 20, 26, 30, 34, 36, 38, 40]
               \<and> length (activities plan) = 8
               \<and> map scheduled_start (activities plan)
                   = map (\<lambda>d. Some (PStr (isoformat d))) ds))"
proof (intro conjI impI)
  have D: "valid_date D" and s: "s \<noteq> []" using strptime_valid [OF assms] by simp_all
  have lo: "1 \<le> ymd_to_ord D" using ord_bounds [OF D] by simp
  {
    assume "ymd_to_ord D + 280 \<le> MAXORDINAL"
    then obtain edd where edd: "add_days D 280 = Inr edd" "ymd_to_ord edd = ymd_to_ord D + 280"
      using add_days_ok [OF D, of 280] lo by auto
    have "calculate_edd_mcp E (PStr s)
            = Inr (Plain [(''lmp_date'', PStr s),
                          (''estimated_delivery_date'', PStr (strftime_ymd edd)),
                          (''calculation_method'',
                             PStr (''Naegele'' @ [CHR 0x27] @ ''s Rule (LMP + 280 days)''))])"
      using assms edd(1)
      by (simp add: calculate_edd_mcp_def calculate_edd_logic_def has_key_def dict_item_def
            try_except_ValueError_def andthen_def)
    then show "\<exists>edd body. add_days D 280 = Inr edd \<and> ymd_to_ord edd = ymd_to_ord D + 280
               \<and> calculate_edd_mcp E (PStr s) = Inr (Plain body)
               \<and> map_of body ''estimated_delivery_date'' = Some (PStr (strftime_ymd edd))"
      using edd by auto
  }
  {
    assume hi: "ymd_to_ord D + 281 \<le> MAXORDINAL"
    show "\<exists>plan ds. schedule_anc_visits_mcp E (PStr s) PNone pid = Inr (Plain plan)
               \<and> map (\<lambda>w. add_days D (7 * w)) [12, 20, 26, 30, 34, 36, 38, 40] = map Inr ds
               \<and> map ymd_to_ord ds
                   = map (\<lambda>w. ymd_to_ord D + 7 * w) [12, 20, 26, 30, 34, 36, 38, 40]
               \<and> length (activities plan) = 8
               \<and> map scheduled_start (activities plan)
                   = map (\<lambda>d. Some (PStr (isoformat d))) ds"
      using assms hi by (rule schedule_from_lmp)
  }
qed

theorem C1_due_date_and_visits_witness:
  "strptime_ymd demo_env ''2024-01-01'' = Inr (Date 2024 1 1)
   \<and> ymd_to_ord (Date 2024 1 1) + 281 \<le> MAXORDINAL
   \<and> (\<exists>edd body. add_days (Date 2024 1 1) 280 = Inr edd
         \<and> ymd_to_ord edd = ymd_to_ord (Date 2024 1 1) + 280
         \<and> calculate_edd_mcp demo_env (PStr ''2024-01-01'') = Inr (Plain body)
         \<and> map_of body ''estimated_delivery_date'' = Some (PStr (strftime_ymd edd)))
   \<and> (\<exists>plan ds. schedule_anc_visits_mcp demo_env (PStr ''2024-01-01'') PNone PNone
                   = Inr (Plain plan)
         \<and> map (\<lambda>w. add_days (Date 2024 1 1) (7 * w)) [12, 20, 26, 30, 34, 36, 38, 40]
             = map Inr ds
         \<and> map ymd_to_ord ds
             = map (\<lambda>w. ymd_to_ord (Date 2024 1 1) + 7 * w) [12, 20, 26, 30, 34, 36, 38, 40]
         \<and> length (activities plan) = 8
         \<and> map scheduled_start (activities plan) = map (\<lambda>d. Some (PStr (isoformat d))) ds)"
proof -
  have p: "strptime_ymd demo_env ''2024-01-01'' = Inr (Date 2024 1 1)"
    by (simp add: parse_eval valid_date_def days_in_month_def is_leap_def)
  have b: "ymd_to_ord (Date 2024 1 1) + 281 \<le> MAXORDINAL"
    by (simp add: ymd_to_ord_def days_before_year_def days_before_month_def MAXORDINAL_def)
  then have a: "ymd_to_ord (Date 2024 1 1) + 280 \<le> MAXORDINAL" by simp
  show ?thesis
    using C1_due_date_and_visits [OF p, of PNone] a b p by blast
qed

text \<open>
  Claim C1 as stated fails at the end of the calendar: for the last period on
  9999-12-31, a date in the required format, the sum with 280 days raises
  \<open>OverflowError\<close>, which no handler catches.
\<close>

theorem C1_last_day_counterexample:
  "calculate_edd_mcp demo_env (PStr ''9999-12-31'') = Inl OverflowError"
  by (simp add: calculate_edd_mcp_def calculate_edd_logic_def has_key_def dict_item_def
        try_except_ValueError_def andthen_def parse_eval date_eval)

text \<open>Different dates have different ordinals.\<close>

lemma ord_year_range:
  assumes "valid_date D"
  shows "days_before_year (year D) < ymd_to_ord D"
    and "ymd_to_ord D \<le> days_before_year (year D + 1)"
proof -
  have m: "1 \<le> month D" "month D \<le> 12"
    and d: "1 \<le> day D" "day D \<le> days_in_month (year D) (month D)"
    using assms by (simp_all add: valid_date_def)
  show "days_before_year (year D) < ymd_to_ord D"
    using dbm_range [OF m, of "year D"] d by (simp add: ymd_to_ord_def)
  show "ymd_to_ord D \<le> days_before_year (year D + 1)"
    using dbm_range [OF m, of "year D"] d by (simp add: ymd_to_ord_def dby_succ)
qed

lemma dbm_mono:
  assumes "1 \<le> a" "a \<le> b"
  shows "b \<le> 12 \<longrightarrow> days_before_month y a \<le> days_before_month y b"
  using assms(2)
proof (induction b rule: int_ge_induct)
  case base
  then show ?case by simp
next
  case (step i)
  show ?case
  proof
    assume "i + 1 \<le> 12"
    then have i: "1 \<le> i" "i \<le> 11" using assms(1) step.hyps by simp_all
    have "days_before_month y (i + 1) = days_before_month y i + days_in_month y i"
      using i by (rule dbm_succ)
    moreover have "28 \<le> days_in_month y i"
      using days_in_month_bounds [of i y] i by simp
    ultimately show "days_before_month y a \<le> days_before_month y (i + 1)"
      using step.IH i by simp
  qed
qed

lemma ymd_to_ord_inj:
  assumes a: "valid_date a" and b: "valid_date b" and eq: "ymd_to_ord a = ymd_to_ord b"
  shows "a = b"
proof -
  have year_le: "year p \<le> year q"
    if p: "valid_date p" and q: "valid_date q" and e: "ymd_to_ord p = ymd_to_ord q" for p q
  proof (rule ccontr)
    assume "\<not> year p \<le> year q"
    then have "year q + 1 \<le> year p" by simp
    then have "days_before_year (year q + 1) \<le> days_before_year (year p)"
      using dby_mono [of "year q + 1" "year p"] by simp
    then show False using ord_year_range(2) [OF q] ord_year_range(1) [OF p] e by simp
  qed
  have y: "year a = year b"
    using year_le [OF a b eq] year_le [OF b a eq [symmetric]] by simp
  have month_le: "month p \<le> month q"
    if p: "valid_date p" and q: "valid_date q" and e: "ymd_to_ord p = ymd_to_ord q"
      and yy: "year p = year q" for p q
  proof (rule ccontr)
    assume "\<not> month p \<le> month q"
    then have lt: "month q + 1 \<le> month p" by simp
    have mq: "1 \<le> month q" "month q \<le> 11"
      and mp: "month p \<le> 12" and dq: "day q \<le> days_in_month (year q) (month q)"
      and dp: "1 \<le> day p"
      using p q lt by (simp_all add: valid_date_def)
    have "days_before_month (year q) (month q + 1)
            = days_before_month (year q) (month q) + days_in_month (year q) (month q)"
      using mq by (rule dbm_succ)
    moreover have "days_before_month (year q) (month q + 1) \<le> days_before_month (year q) (month p)"
      using dbm_mono [of "month q + 1" "month p" "year q"] mq lt mp by simp
    ultimately show False using e yy dq dp by (simp add: ymd_to_ord_def)
  qed
  have m: "month a = month b"
    using month_le [OF a b eq y] month_le [OF b a eq [symmetric] y [symmetric]] by simp
  have "day a = day b" using eq y m by (simp add: ymd_to_ord_def)
  with y m show ?thesis by (simp add: date.expand)
qed

text \<open>What each of the two calls returns, given the dates and the entries.\<close>

lemma schedule_edd_call:
  assumes "strptime_ymd E e = Inr Ed" and "add_days Ed (- 280) = Inr L"
    and "anc_activities L visit_weeks = Inr acts"
  shows "\<exists>plan. schedule_anc_visits_mcp E PNone (PStr e) pid = Inr (Plain plan)
           \<and> activities plan = acts"
proof -
  have "e \<noteq> []" using strptime_valid [OF assms(1)] by simp
  then show ?thesis
    using assms
    by (simp add: schedule_anc_visits_mcp_def schedule_anc_visits_logic_def dict_get_def
          try_except_ValueError_def andthen_def Let_def activities_def list_items_def)
qed

lemma schedule_lmp_call:
  assumes "strptime_ymd E l = Inr L" and "add_days L 280 = Inr edd"
    and "anc_activities L visit_weeks = Inr acts"
  shows "\<exists>plan. schedule_anc_visits_mcp E (PStr l) PNone pid = Inr (Plain plan)
           \<and> activities plan = acts"
proof -
  have "l \<noteq> []" using strptime_valid [OF assms(1)] by simp
  then show ?thesis
    using assms
    by (simp add: schedule_anc_visits_mcp_def schedule_anc_visits_logic_def dict_get_def
          try_except_ValueError_def andthen_def Let_def activities_def list_items_def)
qed

text \<open>A delivery date has a date 280 days before it from 0001-10-08 on.\<close>

lemma lmp_of_edd_exists:
  assumes "valid_date Ed" and "ymd_to_ord (Date 1 10 8) \<le> ymd_to_ord Ed"
  shows "\<exists>L. valid_date L \<and> ymd_to_ord L = ymd_to_ord Ed - 280"
proof -
  have "ymd_to_ord (Date 1 10 8) = 281"
    by (simp add: ymd_to_ord_def days_before_year_def days_before_month_def is_leap_def)
  then have "1 \<le> ymd_to_ord Ed + - 280" "ymd_to_ord Ed + - 280 \<le> MAXORDINAL"
    using assms(2) ord_bounds [OF assms(1)] by simp_all
  then show ?thesis using add_days_ok [OF assms(1), of "- 280"] by auto
qed

text \<open>
  Claim C9, as the code has it. Let \<open>strptime\<close> accept the delivery date \<open>E\<close> and
  the last-period date \<open>L\<close>, let \<open>L\<close> be the date 280 days before \<open>E\<close> (there is
  one from 0001-10-08 on), and let \<open>E\<close> be before 9999-12-31, so that the window of
  the last visit is inside the calendar. Then \<open>schedule_anc_visits\<close> with only
  \<open>edd_date = E\<close> and \<open>schedule_anc_visits\<close> with only \<open>lmp_date = L\<close> both
  return a care plan, and the two plans have the same 8 entries: the same dates and
  descriptions in the same order.
\<close>

theorem C9_edd_consistent_with_lmp:
  assumes "strptime_ymd E1 e = Inr Ed" and "strptime_ymd E2 l = Inr L"
    and "ymd_to_ord L = ymd_to_ord Ed - 280"
    and "ymd_to_ord Ed + 1 \<le> MAXORDINAL"
  shows "\<exists>plan1 plan2.
           schedule_anc_visits_mcp E1 PNone (PStr e) pid1 = Inr (Plain plan1)
           \<and> schedule_anc_visits_mcp E2 (PStr l) PNone pid2 = Inr (Plain plan2)
           \<and> activities plan1 = activities plan2
           \<and> length (activities plan1) = 8"
proof -
  have Ed: "valid_date Ed" using strptime_valid [OF assms(1)] by simp
  have L: "valid_date L" using strptime_valid [OF assms(2)] by simp
  have loL: "1 \<le> ymd_to_ord L" using ord_bounds [OF L] by simp
  have "1 \<le> ymd_to_ord Ed + - 280" "ymd_to_ord Ed + - 280 \<le> MAXORDINAL"
    using assms(3,4) loL by simp_all
  then obtain L' where L': "add_days Ed (- 280) = Inr L'" "valid_date L'"
    "ymd_to_ord L' = ymd_to_ord Ed + - 280"
    using add_days_ok [OF Ed, of "- 280"] by auto
  have "L' = L" using L'(2) L L'(3) assms(3) by (intro ymd_to_ord_inj) simp_all
  then have lmp_eq: "add_days Ed (- 280) = Inr L" using L'(1) by simp
  have "1 \<le> ymd_to_ord L + 280" "ymd_to_ord L + 280 \<le> MAXORDINAL"
    using assms(3,4) loL by simp_all
  then obtain edd where edd: "add_days L 280 = Inr edd"
    using add_days_ok [OF L, of 280] by auto
  have rows: "\<forall>row \<in> set visit_weeks.
                0 \<le> fst row \<and> ymd_to_ord L + 7 * fst row + 1 \<le> MAXORDINAL"
    using assms(3,4) by (simp add: visit_weeks_def)
  obtain acts ds where acts: "anc_activities L visit_weeks = Inr acts"
    "map (\<lambda>row. add_days L (7 * fst row)) visit_weeks = map Inr ds"
    "map scheduled_start acts = map (\<lambda>d. Some (PStr (isoformat d))) ds"
    using anc_activities_ok [OF L rows] by blast
  have len: "length acts = 8"
    using arg_cong [OF acts(3), of length] arg_cong [OF acts(2), of length]
    by (simp add: visit_weeks_def)
  obtain plan1 where p1: "schedule_anc_visits_mcp E1 PNone (PStr e) pid1 = Inr (Plain plan1)"
    "activities plan1 = acts"
    using schedule_edd_call [OF assms(1) lmp_eq acts(1), of pid1] by blast
  obtain plan2 where p2: "schedule_anc_visits_mcp E2 (PStr l) PNone pid2 = Inr (Plain plan2)"
    "activities plan2 = acts"
    using schedule_lmp_call [OF assms(2) edd acts(1), of pid2] by blast
  show ?thesis using p1 p2 len by auto
qed

theorem C9_edd_consistent_with_lmp_witness:
  "strptime_ymd demo_env ''2024-10-07'' = Inr (Date 2024 10 7)
   \<and> strptime_ymd demo_env ''2024-01-01'' = Inr (Date 2024 1 1)
   \<and> ymd_to_ord (Date 2024 1 1) = ymd_to_ord (Date 2024 10 7) - 280
   \<and> ymd_to_ord (Date 2024 10 7) + 1 \<le> MAXORDINAL
   \<and> (\<exists>plan1 plan2.
         schedule_anc_visits_mcp demo_env PNone (PStr ''2024-10-07'') PNone = Inr (Plain plan1)
         \<and> schedule_anc_visits_mcp demo_env (PStr ''2024-01-01'') PNone PNone
             = Inr (Plain plan2)
         \<and> activities plan1 = activities plan2
         \<and> length (activities plan1) = 8)"
proof -
  have p1: "strptime_ymd demo_env ''2024-10-07'' = Inr (Date 2024 10 7)"
    by (simp add: parse_eval valid_date_def days_in_month_def is_leap_def)
  have p2: "strptime_ymd demo_env ''2024-01-01'' = Inr (Date 2024 1 1)"
    by (simp add: parse_eval valid_date_def days_in_month_def is_leap_def)
  have d: "ymd_to_ord (Date 2024 1 1) = ymd_to_ord (Date 2024 10 7) - 280"
    by (simp add: ymd_to_ord_def days_before_year_def days_before_month_def is_leap_def)
  have b: "ymd_to_ord (Date 2024 10 7) + 1 \<le> MAXORDINAL"
    by (simp add: ymd_to_ord_def days_before_year_def days_before_month_def is_leap_def
          MAXORDINAL_def)
  show ?thesis
    using C9_edd_consistent_with_lmp [OF p1 p2 d b, of PNone PNone] p1 p2 d b by blast
qed

text \<open>
  Claim C9 as stated fails at the start of the calendar: for the delivery date
  0001-01-01, a date in the required format, there is no date 280 days earlier; the
  call with only \<open>edd_date\<close> raises \<open>OverflowError\<close> at
  \<open>edd_date - timedelta(days=280)\<close> and produces no schedule.
\<close>

theorem C9_first_day_counterexample:
  "schedule_anc_visits_mcp demo_env PNone (PStr ''0001-01-01'') PNone = Inl OverflowError"
  by (simp add: schedule_anc_visits_mcp_def schedule_anc_visits_logic_def dict_get_def
        try_except_ValueError_def andthen_def parse_eval date_eval Let_def)

section \<open>Immunization schedule\<close>

lemma dbm_le:
  assumes "1 \<le> m" "m \<le> 12"
  shows "days_before_month y m \<le> 31 * (m - 1)"
proof -
  have "m = 1 \<or> m = 2 \<or> m = 3 \<or> m = 4 \<or> m = 5 \<or> m = 6 \<or> m = 7 \<or> m = 8
         \<or> m = 9 \<or> m = 10 \<or> m = 11 \<or> m = 12"
    using assms by (rule month_cases)
  then show ?thesis
    by (elim disjE) (simp_all add: days_before_month_def)
qed

lemma dbm_ge_july:
  assumes "7 \<le> m" "m \<le> 12"
  shows "181 \<le> days_before_month y m"
proof -
  have "m = 1 \<or> m = 2 \<or> m = 3 \<or> m = 4 \<or> m = 5 \<or> m = 6 \<or> m = 7 \<or> m = 8
         \<or> m = 9 \<or> m = 10 \<or> m = 11 \<or> m = 12"
    using assms by (intro month_cases) simp_all
  then show ?thesis using assms(1)
    by (elim disjE) (simp_all add: days_before_month_def)
qed

lemma dby_9998: "days_before_year 9998 = 3651329"
  by (simp add: days_before_year_def)

lemma dby_9999: "days_before_year 9999 = 3651694"
  by (simp add: days_before_year_def)

text \<open>What it means for a date to be no later than 9998-06-24.\<close>

lemma before_last_window:
  assumes "valid_date (Date y m d)" "ymd_to_ord (Date y m d) \<le> ymd_to_ord (Date 9998 6 24)"
  shows "y \<le> 9997 \<or> (y = 9998 \<and> m \<le> 6 \<and> (m = 6 \<longrightarrow> d \<le> 24))"
proof -
  have v: "1 \<le> y" "1 \<le> m" "m \<le> 12" "1 \<le> d" using assms(1) by (simp_all add: valid_date_def)
  have lim: "ymd_to_ord (Date 9998 6 24) = 3651329 + 175"
    by (simp add: ord_Date dby_9998 days_before_month_def is_leap_def)
  have dbm0: "0 \<le> days_before_month y m" using dbm_range [OF v(2,3)] by simp
  have y: "y \<le> 9998"
  proof (rule ccontr)
    assume "\<not> y \<le> 9998"
    then have "days_before_year 9999 + 365 * (y - 9999) \<le> days_before_year y"
      by (intro dby_mono) simp
    then show False using assms(2) lim dbm0 v \<open>\<not> y \<le> 9998\<close> by (simp add: ord_Date dby_9999)
  qed
  show ?thesis
  proof (cases "y = 9998")
    case False
    then show ?thesis using y by simp
  next
    case True
    have m6: "m \<le> 6"
    proof (rule ccontr)
      assume "\<not> m \<le> 6"
      then have "181 \<le> days_before_month y m" using v by (intro dbm_ge_july) simp_all
      then show False using assms(2) lim v True by (simp add: ord_Date dby_9998)
    qed
    have "d \<le> 24" if "m = 6"
      using assms(2) lim True that
      by (simp add: ord_Date dby_9998 days_before_month_def is_leap_def)
    then show ?thesis using True m6 by simp
  qed
qed

text \<open>A clipped day in a given month, and the week after it plus \<open>K\<close> days.\<close>

lemma window_ok:
  assumes "1 \<le> y1" "y1 \<le> 9999" "1 \<le> m1" "m1 \<le> 12" "1 \<le> d" "0 \<le> K"
    and "31 * m1 + K + 7 \<le> 365 * (10000 - y1) \<or> (y1 = 9999 \<and> m1 = 12 \<and> d + K + 7 \<le> 31)"
  shows "\<exists>vd ve. add_days (Date y1 m1 (min (days_in_month y1 m1) d)) K = Inr vd
           \<and> add_days vd 7 = Inr ve"
proof -
  let ?B = "Date y1 m1 (min (days_in_month y1 m1) d)"
  have dim: "28 \<le> days_in_month y1 m1" "days_in_month y1 m1 \<le> 31"
    using days_in_month_bounds [OF assms(3,4), of y1] by simp_all
  have B: "valid_date ?B" using assms(1-5) dim by (simp add: valid_date_def)
  have lo: "1 \<le> ymd_to_ord ?B" using ord_bounds [OF B] by simp
  have hi: "ymd_to_ord ?B + K + 7 \<le> MAXORDINAL"
    using assms(7)
  proof
    assume c: "31 * m1 + K + 7 \<le> 365 * (10000 - y1)"
    have "days_before_year y1 + 365 * (10000 - y1) \<le> days_before_year 10000"
      by (rule dby_mono) (use assms(2) in simp)
    moreover have "days_before_month y1 m1 \<le> 31 * (m1 - 1)" by (rule dbm_le) fact+
    ultimately show ?thesis using c dim
      by (simp add: ord_Date dby_10000 MAXORDINAL_def)
  next
    assume c: "y1 = 9999 \<and> m1 = 12 \<and> d + K + 7 \<le> 31"
    then show ?thesis using assms(5,6)
      by (simp add: ord_Date dby_9999 MAXORDINAL_def days_before_month_def days_in_month_def
            is_leap_def)
  qed
  obtain vd where vd: "add_days ?B K = Inr vd" "valid_date vd"
    "ymd_to_ord vd = ymd_to_ord ?B + K"
    using add_days_ok [OF B, of K] lo hi assms(6) by auto
  obtain ve where "add_days vd 7 = Inr ve"
    using add_days_ok [OF vd(2), of 7] vd(3) lo hi assms(6) by auto
  with vd(1) show ?thesis by blast
qed

text \<open>
  Adding a non-negative number of months: the sum steps into the next year when the
  month passes December, clips the day, and then adds the days.
\<close>

lemma add_relativedelta_months:
  assumes D: "valid_date (Date y m d)"
    and M: "0 \<le> M"
    and Y: "Y = (if 11 < M then M div 12 else 0)"
    and ms: "ms = (if 11 < M then M mod 12 else M)"
  shows "add_relativedelta E (Date y m d) M K =
     (if ms \<noteq> 0 \<and> 12 < m + ms
      then (if 9999 < y + Y + 1
            then Inl (ValueError (''year '' @ py_str E (PInt (y + Y + 1)) @ '' is out of range''))
            else add_days (Date (y + Y + 1) (m + ms - 12)
                    (min (days_in_month (y + Y + 1) (m + ms - 12)) d)) K)
      else (if 9999 < y + Y
            then Inl (ValueError (''year '' @ py_str E (PInt (y + Y)) @ '' is out of range''))
            else add_days (Date (y + Y) (m + ms)
                    (min (days_in_month (y + Y) (m + ms)) d)) K))"
proof -
  have v: "1 \<le> y" "1 \<le> m" using D by (simp_all add: valid_date_def)
  have ms0: "0 \<le> ms" using M ms by simp
  have Y0: "0 \<le> Y" using M Y by (simp add: pos_imp_zdiv_nonneg_iff)
  have sgn: "(if M < 0 then - 1 else 1) = (1::int)" "\<bar>M\<bar> = M" using M by simp_all
  have yrs: "(if 11 < \<bar>M\<bar> then M * 1 div 12 * 1 else 0) = Y" using Y sgn by simp
  have mon: "(if 11 < \<bar>M\<bar> then M * 1 mod 12 * 1 else M) = ms" using ms sgn by simp
  show ?thesis
    unfolding add_relativedelta_def Let_def sgn(1) yrs mon date.sel
    using v ms0 Y0 by auto
qed

lemma relativedelta_window:
  assumes D: "valid_date (Date y m d)"
    and M: "0 \<le> M" and K: "0 \<le> K"
    and Y: "Y = (if 11 < M then M div 12 else 0)"
    and ms: "ms = (if 11 < M then M mod 12 else M)"
    and plain: "\<not> (ms \<noteq> 0 \<and> 12 < m + ms) \<Longrightarrow>
       y + Y \<le> 9999 \<and> m + ms \<le> 12
       \<and> (31 * (m + ms) + K + 7 \<le> 365 * (10000 - (y + Y))
          \<or> (y + Y = 9999 \<and> m + ms = 12 \<and> d + K + 7 \<le> 31))"
    and carry: "ms \<noteq> 0 \<and> 12 < m + ms \<Longrightarrow>
       y + Y + 1 \<le> 9999 \<and> m + ms - 12 \<le> 12
       \<and> (31 * (m + ms - 12) + K + 7 \<le> 365 * (10000 - (y + Y + 1))
          \<or> (y + Y + 1 = 9999 \<and> m + ms - 12 = 12 \<and> d + K + 7 \<le> 31))"
  shows "\<exists>vd ve. add_relativedelta E (Date y m d) M K = Inr vd \<and> add_days vd 7 = Inr ve"
proof -
  have v: "1 \<le> y" "1 \<le> m" "1 \<le> d" using D by (simp_all add: valid_date_def)
  have ms0: "0 \<le> ms" using M ms by simp
  have Y0: "0 \<le> Y" using M Y by (simp add: pos_imp_zdiv_nonneg_iff)
  show ?thesis
  proof (cases "ms \<noteq> 0 \<and> 12 < m + ms")
    case True
    have "\<exists>vd ve. add_days (Date (y + Y + 1) (m + ms - 12)
                      (min (days_in_month (y + Y + 1) (m + ms - 12)) d)) K = Inr vd
            \<and> add_days vd 7 = Inr ve"
      by (rule window_ok) (use carry [OF True] True v Y0 K in simp_all)
    then show ?thesis
      using True carry [OF True]
      by (simp add: add_relativedelta_months [OF D M Y ms])
  next
    case False
    have "\<exists>vd ve. add_days (Date (y + Y) (m + ms)
                      (min (days_in_month (y + Y) (m + ms)) d)) K = Inr vd
            \<and> add_days vd 7 = Inr ve"
      by (rule window_ok) (use plain [OF False] v Y0 ms0 K in simp_all)
    then show ?thesis
      using False plain [OF False]
      by (simp add: add_relativedelta_months [OF D M Y ms])
  qed
qed

lemma add_relativedelta_zero:
  assumes "valid_date D"
  shows "add_relativedelta E D 0 0 = Inr D"
proof -
  obtain y m d where D: "D = Date y m d" by (cases D)
  have v: "1 \<le> y" "y \<le> 9999" "1 \<le> d" "d \<le> days_in_month y m"
    using assms D by (simp_all add: valid_date_def)
  have "add_relativedelta E (Date y m d) 0 0
          = add_days (Date y m (min (days_in_month y m) d)) 0"
    using v by (simp add: add_relativedelta_months [OF assms [unfolded D], of 0 0 0])
  also have "\<dots> = add_days (Date y m d) 0"
    using v by (simp add: min_def)
  also have "\<dots> = Inr (Date y m d)"
    using v by (simp add: add_days_def normalize_date_def Let_def)
  finally show ?thesis using D by simp
qed

text \<open>The offsets that occur in the immunization table, for a birth no later than
  9998-06-24.\<close>

lemma table_offset_ok:
  assumes D: "valid_date D" and lim: "ymd_to_ord D \<le> ymd_to_ord (Date 9998 6 24)"
    and tab: "(M, K) \<in> {(0, 0), (1, 15), (2, 15), (3, 15), (9, 0), (15, 0), (18, 0)}"
  shows "\<exists>vd ve. add_relativedelta E D M K = Inr vd \<and> add_days vd 7 = Inr ve"
proof -
  obtain y m d where Dd: "D = Date y m d" by (cases D)
  have v: "1 \<le> y" "1 \<le> m" "m \<le> 12" "1 \<le> d" "d \<le> 31"
    using D Dd days_in_month_bounds [of m y] by (auto simp: valid_date_def)
  have b: "y \<le> 9997 \<or> (y = 9998 \<and> m \<le> 6 \<and> (m = 6 \<longrightarrow> d \<le> 24))"
    using before_last_window D lim unfolding Dd by blast
  have "\<exists>vd ve. add_relativedelta E (Date y m d) M K = Inr vd \<and> add_days vd 7 = Inr ve"
    if "(Y, ms) = (if 11 < M then M div 12 else 0, if 11 < M then M mod 12 else M)"
      and "0 \<le> M" "0 \<le> K"
      and "(Y, ms, K) \<in> {(0, 0, 0), (0, 1, 15), (0, 2, 15), (0, 3, 15), (0, 9, 0), (1, 3, 0),
                          (1, 6, 0)}"
    for Y ms
  proof (rule relativedelta_window [OF D [unfolded Dd] that(2,3), of Y ms])
    show "Y = (if 11 < M then M div 12 else 0)" "ms = (if 11 < M then M mod 12 else M)"
      using that(1) by simp_all
    show "y + Y \<le> 9999 \<and> m + ms \<le> 12
       \<and> (31 * (m + ms) + K + 7 \<le> 365 * (10000 - (y + Y))
          \<or> (y + Y = 9999 \<and> m + ms = 12 \<and> d + K + 7 \<le> 31))"
      if "\<not> (ms \<noteq> 0 \<and> 12 < m + ms)"
      using that \<open>(Y, ms, K) \<in> _\<close> v b by (elim insertE emptyE) auto
    show "y + Y + 1 \<le> 9999 \<and> m + ms - 12 \<le> 12
       \<and> (31 * (m + ms - 12) + K + 7 \<le> 365 * (10000 - (y + Y + 1))
          \<or> (y + Y + 1 = 9999 \<and> m + ms - 12 = 12 \<and> d + K + 7 \<le> 31))"
      if "ms \<noteq> 0 \<and> 12 < m + ms"
      using that \<open>(Y, ms, K) \<in> _\<close> v b by (elim insertE emptyE) auto
  qed
  from this [of "if 11 < M then M div 12 else 0" "if 11 < M then M mod 12 else M"] tab
  show ?thesis unfolding Dd by (elim insertE emptyE) simp_all
qed

lemma frac_half_days:
  assumes "frac a = 0 \<or> frac a = 1 / 2"
  shows "trunc (frac a * 30) = trunc (frac a * 30.4375)"
  using assms
proof
  assume h: "frac a = 0"
  show ?thesis unfolding h by (simp add: trunc_def)
next
  assume h: "frac a = 1 / 2"
  show ?thesis unfolding h by (simp add: trunc_def)
qed

lemma immunization_plan_fractions:
  "\<forall>item \<in> set immunization_plan. frac (fst (snd item)) = 0 \<or> frac (fst (snd item)) = 1 / 2"
  by (simp add: immunization_plan_def frac_def)

lemma immunization_activities_http_eq:
  assumes "\<forall>item \<in> set items. frac (fst (snd item)) = 0 \<or> frac (fst (snd item)) = 1 / 2"
  shows "immunization_activities_http E dob items = immunization_activities E dob items"
  using assms
proof (induction items)
  case Nil
  then show ?case by simp
next
  case (Cons item rest)
  then have "trunc (frac (fst (snd item)) * 30) = trunc (frac (fst (snd item)) * 30.4375)"
    by (intro frac_half_days) simp
  with Cons show ?case by (simp add: Let_def)
qed

lemma plan_view_try:
  assumes "\<And>v. plan_view (rest1 v) = plan_view (rest2 v)"
  shows "plan_view (try_except_ValueError body handler rest1)
           = plan_view (try_except_ValueError body handler rest2)"
proof (cases body)
  case (Inl e)
  then show ?thesis by (cases e) (simp_all add: try_except_ValueError_def)
next
  case (Inr v)
  then show ?thesis using assms by (simp add: try_except_ValueError_def)
qed

lemma plan_view_andthen:
  assumes "\<And>a. activities (f a) = a" and "\<And>a. activities (g a) = a"
  shows "plan_view (andthen m (\<lambda>a. Inr (Plain (f a))))
           = plan_view (andthen m (\<lambda>a. Inr (Plain (g a))))"
  by (cases m) (simp_all add: andthen_def plan_view_def reply_status_def reply_body_def assms)

lemma immunization_plan_offsets:
  "\<forall>item \<in> set immunization_plan.
     (trunc (fst (snd item)), trunc (frac (fst (snd item)) * 30.4375))
       \<in> {(0, 0), (1, 15), (2, 15), (3, 15), (9, 0), (15, 0), (18, 0)}"
  by (simp add: immunization_plan_def trunc_def frac_def)

lemma immunization_activity_reads:
  "scheduled_start (immunization_activity item vd ve) = Some (PStr (isoformat vd))"
  "entry_description (immunization_activity item vd ve)
     = Some (PStr (fst item @ '' - '' @ snd (snd item)))"
  by (simp_all add: immunization_activity_def scheduled_start_def entry_description_def
        split: prod.splits)

text \<open>
  The loop over the immunization table, for a birth no later than 9998-06-24: one entry
  per row, described by its row, and an entry of a row with age 0 starts on the day
  of birth.
\<close>

lemma immunization_activities_ok:
  assumes D: "valid_date D" and lim: "ymd_to_ord D \<le> ymd_to_ord (Date 9998 6 24)"
    and items: "\<forall>item \<in> set items.
       (trunc (fst (snd item)), trunc (frac (fst (snd item)) * 30.4375))
         \<in> {(0, 0), (1, 15), (2, 15), (3, 15), (9, 0), (15, 0), (18, 0)}"
  shows "\<exists>acts. immunization_activities E D items = Inr acts
           \<and> length acts = length items
           \<and> map entry_description acts
               = map (\<lambda>item. Some (PStr (fst item @ '' - '' @ snd (snd item)))) items
           \<and> map (\<lambda>p. scheduled_start (snd p))
                 (filter (\<lambda>p. fst (snd (fst p)) = 0) (zip items acts))
               = map (\<lambda>item. Some (PStr (isoformat D)))
                   (filter (\<lambda>item. fst (snd item) = 0) items)"
  using items
proof (induction items)
  case Nil
  then show ?case by simp
next
  case (Cons item rest)
  let ?M = "trunc (fst (snd item))" and ?K = "trunc (frac (fst (snd item)) * 30.4375)"
  have tab: "(?M, ?K) \<in> {(0, 0), (1, 15), (2, 15), (3, 15), (9, 0), (15, 0), (18, 0)}"
    using Cons.prems by simp
  obtain vd ve where vd: "add_relativedelta E D ?M ?K = Inr vd" and ve: "add_days vd 7 = Inr ve"
    using table_offset_ok [OF D lim tab] by blast
  have birth: "vd = D" if "fst (snd item) = 0"
    using vd that add_relativedelta_zero [OF D, of E] by (simp add: trunc_def)
  obtain acts where ih: "immunization_activities E D rest = Inr acts"
    "length acts = length rest"
    "map entry_description acts
       = map (\<lambda>item. Some (PStr (fst item @ '' - '' @ snd (snd item)))) rest"
    "map (\<lambda>p. scheduled_start (snd p)) (filter (\<lambda>p. fst (snd (fst p)) = 0) (zip rest acts))
       = map (\<lambda>item. Some (PStr (isoformat D))) (filter (\<lambda>item. fst (snd item) = 0) rest)"
    using Cons.IH Cons.prems by auto
  have run: "immunization_activities E D (item # rest)
               = Inr (immunization_activity item vd ve # acts)"
    using vd ve ih(1) by (simp add: Let_def andthen_def)
  show ?case
    using run ih(2-4) birth by (simp add: immunization_activity_reads)
qed

text \<open>
  Claim C2, as the code has it. For a date of birth \<open>D\<close> that \<open>strptime\<close> accepts and
  that is no later than 9998-06-24 (the last day whose booster at 18 months still has
  its week inside the calendar), the immunization schedule has exactly 20 entries,
  described row by row in the order of the vaccine table, and the entries of the three
  rows with age 0 start on \<open>D\<close>.
\<close>

theorem C2_immunization_schedule:
  assumes "strptime_ymd E s = Inr D" and "ymd_to_ord D \<le> ymd_to_ord (Date 9998 6 24)"
  shows "\<exists>plan. get_immunization_schedule_mcp E (PStr s) pid = Inr (Plain plan)
           \<and> length (activities plan) = 20
           \<and> map entry_description (activities plan)
               = map (\<lambda>item. Some (PStr (fst item @ '' - '' @ snd (snd item)))) immunization_plan
           \<and> map (\<lambda>p. scheduled_start (snd p))
                 (filter (\<lambda>p. fst (snd (fst p)) = 0) (zip immunization_plan (activities plan)))
               = [Some (PStr (isoformat D)), Some (PStr (isoformat D)),
                  Some (PStr (isoformat D))]"
proof -
  have D: "valid_date D" using strptime_valid [OF assms(1)] by simp
  obtain acts where acts: "immunization_activities E D immunization_plan = Inr acts"
    "length acts = length immunization_plan"
    "map entry_description acts
       = map (\<lambda>item. Some (PStr (fst item @ '' - '' @ snd (snd item)))) immunization_plan"
    "map (\<lambda>p. scheduled_start (snd p))
         (filter (\<lambda>p. fst (snd (fst p)) = 0) (zip immunization_plan acts))
       = map (\<lambda>item. Some (PStr (isoformat D)))
           (filter (\<lambda>item. fst (snd item) = 0) immunization_plan)"
    using immunization_activities_ok [OF D assms(2) immunization_plan_offsets] by blast
  have births: "filter (\<lambda>item. fst (snd item) = 0) immunization_plan
                  = [(''BCG'', 0, ''Birth dose''), (''OPV-0'', 0, ''Birth dose''),
                     (''Hepatitis B - Birth'', 0, ''Birth dose'')]"
    by (simp add: immunization_plan_def)
  have len: "length immunization_plan = 20" by (simp add: immunization_plan_def)
  have "\<exists>plan. get_immunization_schedule_mcp E (PStr s) pid = Inr (Plain plan)
          \<and> activities plan = acts"
    using assms(1) acts(1)
    by (simp add: get_immunization_schedule_mcp_def get_immunization_schedule_logic_def
          has_key_def dict_item_def try_except_ValueError_def andthen_def Let_def
          activities_def list_items_def)
  then show ?thesis using acts(2-4) births len by auto
qed

theorem C2_immunization_schedule_witness:
  "strptime_ymd demo_env ''2024-01-31'' = Inr (Date 2024 1 31)
   \<and> ymd_to_ord (Date 2024 1 31) \<le> ymd_to_ord (Date 9998 6 24)
   \<and> (\<exists>plan. get_immunization_schedule_mcp demo_env (PStr ''2024-01-31'') (PStr ''p1'')
                = Inr (Plain plan)
         \<and> length (activities plan) = 20
         \<and> map entry_description (activities plan)
             = map (\<lambda>item. Some (PStr (fst item @ '' - '' @ snd (snd item)))) immunization_plan
         \<and> map (\<lambda>p. scheduled_start (snd p))
               (filter (\<lambda>p. fst (snd (fst p)) = 0) (zip immunization_plan (activities plan)))
             = [Some (PStr (isoformat (Date 2024 1 31))), Some (PStr (isoformat (Date 2024 1 31))),
                Some (PStr (isoformat (Date 2024 1 31)))])"
proof -
  have p: "strptime_ymd demo_env ''2024-01-31'' = Inr (Date 2024 1 31)"
    by (simp add: parse_eval valid_date_def days_in_month_def is_leap_def)
  have b: "ymd_to_ord (Date 2024 1 31) \<le> ymd_to_ord (Date 9998 6 24)"
    by (simp add: ymd_to_ord_def days_before_year_def days_before_month_def is_leap_def)
  show ?thesis
    using C2_immunization_schedule [OF p b, of "PStr ''p1''"] p b by blast
qed

text \<open>
  Claim C2 as stated fails at the end of the calendar: for a birth on 9999-12-31 the
  week of the first birth dose already ends after the last date, and the call raises
  \<open>OverflowError\<close>.
\<close>

theorem C2_last_day_counterexample:
  "get_immunization_schedule_mcp demo_env (PStr ''9999-12-31'') (PStr ''p1'')
     = Inl OverflowError"
  by (simp add: get_immunization_schedule_mcp_def get_immunization_schedule_logic_def
        has_key_def dict_item_def try_except_ValueError_def andthen_def parse_eval date_eval
        Let_def immunization_plan_def add_relativedelta_def trunc_def frac_def)

text \<open>The keys of the two care plans, whenever the schedule can be computed.\<close>

lemma immunization_plan_keys:
  assumes "strptime_ymd E s = Inr D" and "ymd_to_ord D \<le> ymd_to_ord (Date 9998 6 24)"
  shows "map_option (map fst)
           (plain_body (get_immunization_schedule_http E
              [(''dob'', PStr s), (''patient_id'', pid)]))
         = Some [''resourceType'', ''id'', ''status'', ''intent'', ''title'', ''subject'',
                 ''activity'', ''instantiatesCanonical'']"
    and "map_option (map fst) (plain_body (get_immunization_schedule_mcp E (PStr s) pid))
         = Some [''resourceType'', ''id'', ''status'', ''intent'', ''title'', ''description'',
                 ''subject'', ''activity'', ''instantiatesCanonical'']"
proof -
  have D: "valid_date D" using strptime_valid [OF assms(1)] by simp
  obtain acts where acts: "immunization_activities E D immunization_plan = Inr acts"
    using immunization_activities_ok [OF D assms(2) immunization_plan_offsets] by blast
  have http: "immunization_activities_http E D immunization_plan = Inr acts"
    using acts immunization_activities_http_eq [OF immunization_plan_fractions] by simp
  show "map_option (map fst)
           (plain_body (get_immunization_schedule_http E
              [(''dob'', PStr s), (''patient_id'', pid)]))
         = Some [''resourceType'', ''id'', ''status'', ''intent'', ''title'', ''subject'',
                 ''activity'', ''instantiatesCanonical'']"
    using assms(1) http
    by (simp add: get_immunization_schedule_http_def has_key_def dict_item_def
          try_except_ValueError_def andthen_def Let_def plain_body_def)
  show "map_option (map fst) (plain_body (get_immunization_schedule_mcp E (PStr s) pid))
         = Some [''resourceType'', ''id'', ''status'', ''intent'', ''title'', ''description'',
                 ''subject'', ''activity'', ''instantiatesCanonical'']"
    using assms(1) acts
    by (simp add: get_immunization_schedule_mcp_def get_immunization_schedule_logic_def
          has_key_def dict_item_def try_except_ValueError_def andthen_def Let_def
          plain_body_def)
qed

section \<open>Immunization schedule: the two surfaces\<close>

text \<open>
  Claim C3, as the code has it. For every request the two surfaces agree on what a
  caller sees of the schedule: the same exception, or else the same status code and
  the same list of entries, with equal codes, descriptions and scheduled periods. The
  days for the fractional months agree because the table only has halves, and half of
  30 and half of 30.4375 both truncate to 15.
\<close>

theorem C3_same_entries_on_both_surfaces:
  "plan_view (get_immunization_schedule_http E data)
     = plan_view (get_immunization_schedule_logic E data)"
proof -
  have acts: "immunization_activities_http E dob immunization_plan
                = immunization_activities E dob immunization_plan" for dob
    by (rule immunization_activities_http_eq) (rule immunization_plan_fractions)
  show ?thesis
  proof (cases "data = [] \<or> \<not> has_key data ''dob'' \<or> \<not> has_key data ''patient_id''")
    case True
    then show ?thesis
      unfolding get_immunization_schedule_http_def get_immunization_schedule_logic_def
      by (simp only: if_True)
  next
    case False
    have rest: "plan_view (case v of (dob_str, dob, patient_id) \<Rightarrow>
                  andthen (immunization_activities E dob immunization_plan) (\<lambda>a. Inr (Plain (f dob_str patient_id a))))
              = plan_view (case v of (dob_str, dob, patient_id) \<Rightarrow>
                  andthen (immunization_activities E dob immunization_plan) (\<lambda>a. Inr (Plain (g dob_str patient_id a))))"
      if "\<And>s p a. activities (f s p a) = a" "\<And>s p a. activities (g s p a) = a"
      for v :: "pyval \<times> date \<times> pyval" and f g
    proof -
      obtain s d p where v: "v = (s, d, p)" by (cases v)
      show ?thesis unfolding v prod.case by (rule plan_view_andthen) (simp_all add: that)
    qed
    show ?thesis
      unfolding get_immunization_schedule_http_def get_immunization_schedule_logic_def
        acts Let_def
      using False
      apply (simp only: if_False)
      apply (rule plan_view_try)
      apply (rule rest)
       apply (simp_all add: activities_def list_items_def)
      done
  qed
qed

theorem C3_same_entries_on_both_surfaces_witness:
  "plan_view (get_immunization_schedule_http demo_env
      [(''dob'', PStr ''2024-01-01''), (''patient_id'', PStr ''p1'')])
     = plan_view (get_immunization_schedule_logic demo_env
      [(''dob'', PStr ''2024-01-01''), (''patient_id'', PStr ''p1'')])
   \<and> (\<exists>acts. plan_view (get_immunization_schedule_logic demo_env
                   [(''dob'', PStr ''2024-01-01''), (''patient_id'', PStr ''p1'')])
                = Inr (None, acts) \<and> length acts = 20)"
proof -
  have p: "strptime_ymd demo_env ''2024-01-01'' = Inr (Date 2024 1 1)"
    by (simp add: parse_eval valid_date_def days_in_month_def is_leap_def)
  have b: "ymd_to_ord (Date 2024 1 1) \<le> ymd_to_ord (Date 9998 6 24)"
    by (simp add: ymd_to_ord_def days_before_year_def days_before_month_def is_leap_def)
  have D: "valid_date (Date 2024 1 1)" using strptime_valid [OF p] by simp
  obtain acts where acts: "immunization_activities demo_env (Date 2024 1 1) immunization_plan
                             = Inr acts" "length acts = length immunization_plan"
    using immunization_activities_ok [OF D b immunization_plan_offsets] by blast
  have "plan_view (get_immunization_schedule_logic demo_env
                   [(''dob'', PStr ''2024-01-01''), (''patient_id'', PStr ''p1'')])
          = Inr (None, acts)"
    using p acts(1)
    by (simp add: get_immunization_schedule_logic_def has_key_def dict_item_def
          try_except_ValueError_def andthen_def Let_def plan_view_def reply_status_def
          reply_body_def activities_def list_items_def)
  moreover have "length acts = 20" using acts(2) by (simp add: immunization_plan_def)
  ultimately show ?thesis
    using C3_same_entries_on_both_surfaces [of demo_env
        "[(''dob'', PStr ''2024-01-01''), (''patient_id'', PStr ''p1'')]"]
    by auto
qed

text \<open>
  Claim C3 as stated fails on the keys. For a child born on 2024-01-01 the care plan of
  the HTTP surface has no \<open>description\<close>, which the care plan of the tool surface
  has.
\<close>

theorem C3_keys_differ_counterexample:
  "map_option (map fst)
     (plain_body (get_immunization_schedule_http demo_env
        [(''dob'', PStr ''2024-01-01''), (''patient_id'', PStr ''p1'')]))
   = Some [''resourceType'', ''id'', ''status'', ''intent'', ''title'', ''subject'',
           ''activity'', ''instantiatesCanonical'']
   \<and> map_option (map fst)
     (plain_body (get_immunization_schedule_mcp demo_env (PStr ''2024-01-01'') (PStr ''p1'')))
   = Some [''resourceType'', ''id'', ''status'', ''intent'', ''title'', ''description'',
           ''subject'', ''activity'', ''instantiatesCanonical'']"
proof -
  have p: "strptime_ymd demo_env ''2024-01-01'' = Inr (Date 2024 1 1)"
    by (simp add: parse_eval valid_date_def days_in_month_def is_leap_def)
  have b: "ymd_to_ord (Date 2024 1 1) \<le> ymd_to_ord (Date 9998 6 24)"
    by (simp add: ymd_to_ord_def days_before_year_def days_before_month_def is_leap_def)
  show ?thesis
    using immunization_plan_keys [OF p b, of "PStr ''p1''"] by simp
qed

end
